theory Spec2Isabelle
  imports Main
begin

section \<open>Raw storage, object lifetimes and the element type\<close>

text \<open>
  The container of \<^verbatim>\<open>VVector.h\<close> owns one block of raw memory and constructs and destroys
  elements in it by hand. A slot of a block is therefore in one of three states: never
  constructed since the allocation, holding a live element, or holding an element whose
  destructor has run.
\<close>

datatype 'a slot = Raw | Live 'a | Dead

datatype 'a block = Block "'a slot list" | Freed

text \<open>
  Running a destructor on a slot that holds no live element, touching memory outside a live
  block, reading an object that is not alive and releasing a block that is not live are
  undefined behaviour in C++. The model records each such event and goes on, so that a run
  can be inspected afterwards.
\<close>

datatype fault =
    DestroyUnconstructed nat nat
  | DestroyTwice nat nat
  | InvalidAccess
  | InvalidFree

datatype exn = BadAlloc | ConstructionFailure | OutOfRange

text \<open>
  A pointer to the first slot of a block; \<open>None\<close> is \<^verbatim>\<open>nullptr\<close>. The memory holds the
  blocks, the next fresh block address \<open>brk\<close>, the faults so far, and three counters: the
  allocations attempted, the element constructions attempted and the destructors run on
  live elements.
\<close>

type_synonym ptr = "nat option"

record 'a memory =
  blocks :: "nat \<Rightarrow> 'a block"
  brk :: nat
  faults :: "fault list"
  allocs :: nat
  ctors :: nat
  dtors :: nat

text \<open>
  What the template parameter \<^verbatim>\<open>T\<close>, \<^verbatim>\<open>std::allocator<T>\<close> and the language contribute:
  \<^item> \<open>alloc_throws k n\<close>: the \<open>k\<close>-th allocation attempted (counted by \<open>allocs\<close>, from 0), a
    request for \<open>n\<close> elements, throws;
  \<^item> \<open>throws k\<close>: the \<open>k\<close>-th element construction attempted (counted by \<open>ctors\<close>, from 0)
    throws;
  \<^item> \<open>moved_from x\<close>: the value left in an object after it has been moved from
    (the identity for \<^verbatim>\<open>int\<close>);
  \<^item> \<open>dflt\<close>: the value of a value-initialised element, \<^verbatim>\<open>T()\<close>;
  \<^item> \<open>dinit\<close>: the value of a default-initialised element (for \<^verbatim>\<open>int\<close> an indeterminate one);
  \<^item> \<open>null_on_zero\<close>: whether \<^verbatim>\<open>allocate(0)\<close> returns \<^verbatim>\<open>nullptr\<close>. The C++ standard leaves
    the result of a zero-length allocation unspecified; libstdc++ and libc++ forward to
    \<^verbatim>\<open>::operator new(0)\<close>, which returns a non-null pointer;
  \<^item> \<open>junk\<close>: the indeterminate value of a pointer member that has not been assigned yet.
\<close>

record 'a env =
  alloc_throws :: "nat \<Rightarrow> nat \<Rightarrow> bool"
  throws :: "nat \<Rightarrow> bool"
  moved_from :: "'a \<Rightarrow> 'a"
  dflt :: 'a
  dinit :: 'a
  null_on_zero :: bool
  junk :: ptr

text \<open>
  A call either returns a result or throws; in both cases it leaves a state behind.
\<close>

datatype ('r, 's) outcome = Returns 'r 's | Throws exn 's

fun state_of :: "('r, 's) outcome \<Rightarrow> 's" where
  "state_of (Returns r s) = s"
| "state_of (Throws e s) = s"

fun threw :: "('r, 's) outcome \<Rightarrow> bool" where
  "threw (Returns r s) = False"
| "threw (Throws e s) = True"

definition add_fault :: "fault \<Rightarrow> 'a memory \<Rightarrow> 'a memory" where
  "add_fault f m = m\<lparr>faults := faults m @ [f]\<rparr>"

definition slot_at :: "'a memory \<Rightarrow> ptr \<Rightarrow> nat \<Rightarrow> 'a slot option" where
  "slot_at m p i =
     (case p of
        None \<Rightarrow> None
      | Some b \<Rightarrow>
          (case blocks m b of
             Freed \<Rightarrow> None
           | Block cs \<Rightarrow> if i < length cs then Some (cs ! i) else None))"

definition put_slot :: "ptr \<Rightarrow> nat \<Rightarrow> 'a slot \<Rightarrow> 'a memory \<Rightarrow> 'a memory" where
  "put_slot p i s m =
     (case p of
        None \<Rightarrow> add_fault InvalidAccess m
      | Some b \<Rightarrow>
          (case blocks m b of
             Freed \<Rightarrow> add_fault InvalidAccess m
           | Block cs \<Rightarrow>
               if i < length cs then m\<lparr>blocks := (blocks m)(b := Block (cs[i := s]))\<rparr>
               else add_fault InvalidAccess m))"

subsection \<open>References to elements\<close>

text \<open>
  The members that take an element take it by reference (\<^verbatim>\<open>const T&\<close> or \<^verbatim>\<open>T&&\<close>) and read
  it when they construct from it, which can be after they have changed the memory. A
  reference is therefore not a value: it designates either an object outside the blocks of
  the model, given by its value, or the object in a slot of a block, which may be an element
  of the very container the member is called on (\<^verbatim>\<open>a.PushBack(a[0])\<close>).
\<close>

datatype 'a cref = Ext 'a | Elem "ptr \<times> nat"

text \<open>The value of the object a reference designates, if that object is alive.\<close>

definition read_ref :: "'a memory \<Rightarrow> 'a cref \<Rightarrow> 'a option" where
  "read_ref m a =
     (case a of
        Ext x \<Rightarrow> Some x
      | Elem r \<Rightarrow>
          (case slot_at m (fst r) (snd r) of
             Some (Live x) \<Rightarrow> Some x
           | _ \<Rightarrow> None))"

subsection \<open>The allocator\<close>

text \<open>
  \<^verbatim>\<open>allocator_.allocate(n)\<close> throws or hands out a fresh block of \<open>n\<close> raw slots
  (\<open>fresh_block\<close> is what a successful call does).
  \<^verbatim>\<open>allocator_.deallocate(p, n)\<close> releases the block at \<open>p\<close>, which must be live and of
  length \<open>n\<close>; releasing \<^verbatim>\<open>nullptr\<close> does nothing.
\<close>

definition fresh_block :: "'a env \<Rightarrow> nat \<Rightarrow> 'a memory \<Rightarrow> ptr \<times> 'a memory" where
  "fresh_block env n m =
     (if n = 0 \<and> null_on_zero env then (None, m)
      else (Some (brk m),
            m\<lparr>blocks := (blocks m)(brk m := Block (replicate n Raw)), brk := Suc (brk m)\<rparr>))"

definition allocate :: "'a env \<Rightarrow> nat \<Rightarrow> 'a memory \<Rightarrow> (ptr, 'a memory) outcome" where
  "allocate env n m =
     (let m0 = m\<lparr>allocs := Suc (allocs m)\<rparr>
      in if alloc_throws env (allocs m) n then Throws BadAlloc m0
         else (case fresh_block env n m0 of (p, m1) \<Rightarrow> Returns p m1))"

definition deallocate :: "ptr \<Rightarrow> nat \<Rightarrow> 'a memory \<Rightarrow> 'a memory" where
  "deallocate p n m =
     (case p of
        None \<Rightarrow> m
      | Some b \<Rightarrow>
          (case blocks m b of
             Freed \<Rightarrow> add_fault InvalidFree m
           | Block cs \<Rightarrow>
               if length cs = n then m\<lparr>blocks := (blocks m)(b := Freed)\<rparr>
               else add_fault InvalidFree m))"

subsection \<open>Construction and destruction of one element\<close>

text \<open>
  Placement new of an element of value \<open>v\<close> at slot \<open>i\<close> of the block at \<open>p\<close>. The attempt is
  counted; when it throws, the slot is left as it was.
\<close>

definition construct_at ::
  "'a env \<Rightarrow> ptr \<Rightarrow> nat \<Rightarrow> 'a \<Rightarrow> 'a memory \<Rightarrow> (unit, 'a memory) outcome" where
  "construct_at env p i v m =
     (let m1 = m\<lparr>ctors := Suc (ctors m)\<rparr>
      in if throws env (ctors m) then Throws ConstructionFailure m1
         else Returns () (put_slot p i (Live v) m1))"

text \<open>
  \<^verbatim>\<open>new (p + i) T(value)\<close>: copy construction from a reference, which is read now. Reading
  an object that is not alive is a fault; no element is constructed then.
\<close>

definition copy_construct_at ::
  "'a env \<Rightarrow> ptr \<Rightarrow> nat \<Rightarrow> 'a cref \<Rightarrow> 'a memory \<Rightarrow> (unit, 'a memory) outcome" where
  "copy_construct_at env p i a m =
     (case read_ref m a of
        None \<Rightarrow> Returns () (add_fault InvalidAccess m)
      | Some x \<Rightarrow> construct_at env p i x m)"

text \<open>
  \<^verbatim>\<open>new (p + i) T(std::move(value))\<close>: move construction from a reference. The object
  referred to is left in its moved-from state; an object outside the blocks is the caller's
  and not part of the memory.
\<close>

definition move_construct_at ::
  "'a env \<Rightarrow> ptr \<Rightarrow> nat \<Rightarrow> 'a cref \<Rightarrow> 'a memory \<Rightarrow> (unit, 'a memory) outcome" where
  "move_construct_at env p i a m =
     (case read_ref m a of
        None \<Rightarrow> Returns () (add_fault InvalidAccess m)
      | Some x \<Rightarrow>
          (case construct_at env p i x m of
             Throws e m' \<Rightarrow> Throws e m'
           | Returns u m' \<Rightarrow>
               Returns ()
                 (case a of
                    Ext y \<Rightarrow> m'
                  | Elem r \<Rightarrow> put_slot (fst r) (snd r) (Live (moved_from env x)) m')))"

text \<open>\<^verbatim>\<open>std::destroy_at(p + i)\<close>: runs the destructor of the object at slot \<open>i\<close>.\<close>

definition destroy_at :: "ptr \<Rightarrow> nat \<Rightarrow> 'a memory \<Rightarrow> 'a memory" where
  "destroy_at p i m =
     (case p of
        None \<Rightarrow> add_fault InvalidAccess m
      | Some b \<Rightarrow>
          (case slot_at m p i of
             None \<Rightarrow> add_fault InvalidAccess m
           | Some Raw \<Rightarrow> add_fault (DestroyUnconstructed b i) m
           | Some (Live v) \<Rightarrow> put_slot p i Dead (m\<lparr>dtors := Suc (dtors m)\<rparr>)
           | Some Dead \<Rightarrow> add_fault (DestroyTwice b i) m))"

text \<open>\<^verbatim>\<open>std::destroy(p + lo, p + hi)\<close>: destroys the slots \<open>lo, \<dots>, hi - 1\<close> in this order.\<close>

definition destroy :: "ptr \<Rightarrow> nat \<Rightarrow> nat \<Rightarrow> 'a memory \<Rightarrow> 'a memory" where
  "destroy p lo hi m = fold (destroy_at p) [lo..<hi] m"

subsection \<open>The uninitialized-memory algorithms of the standard library\<close>

text \<open>
  \<^verbatim>\<open>std::uninitialized_fill(p + lo, p + hi, value)\<close> constructs a copy of the object \<open>value\<close>
  refers to in each slot of the range, in order, reading it for each copy. As the standard
  requires of all these algorithms, when a construction throws, the objects the call has
  constructed are destroyed before the exception leaves it. \<open>first\<close> is the start of the
  range, \<open>cur\<close> the next slot, and the third number counts the slots still to fill.
\<close>

fun fill_loop ::
  "'a env \<Rightarrow> ptr \<Rightarrow> 'a cref \<Rightarrow> nat \<Rightarrow> nat \<Rightarrow> nat \<Rightarrow> 'a memory \<Rightarrow> (unit, 'a memory) outcome" where
  "fill_loop env p a first cur 0 m = Returns () m"
| "fill_loop env p a first cur (Suc k) m =
     (case copy_construct_at env p cur a m of
        Throws e m' \<Rightarrow> Throws e (destroy p first cur m')
      | Returns u m' \<Rightarrow> fill_loop env p a first (Suc cur) k m')"

definition uninitialized_fill ::
  "'a env \<Rightarrow> ptr \<Rightarrow> nat \<Rightarrow> nat \<Rightarrow> 'a cref \<Rightarrow> 'a memory \<Rightarrow> (unit, 'a memory) outcome" where
  "uninitialized_fill env p lo hi a m = fill_loop env p a lo lo (hi - lo) m"

text \<open>
  \<^verbatim>\<open>std::uninitialized_value_construct_n(p + lo, n)\<close> value-initialises \<open>n\<close> elements, each to
  \<open>dflt env\<close>; \<^verbatim>\<open>std::uninitialized_default_construct_n(p + lo, n)\<close> default-initialises them,
  each to \<open>dinit env\<close>. Both clean up on a throw as the fill does.
\<close>

definition uninitialized_value_construct_n ::
  "'a env \<Rightarrow> ptr \<Rightarrow> nat \<Rightarrow> nat \<Rightarrow> 'a memory \<Rightarrow> (unit, 'a memory) outcome" where
  "uninitialized_value_construct_n env p lo n m = fill_loop env p (Ext (dflt env)) lo lo n m"


text \<open>
  \<^verbatim>\<open>std::uninitialized_move(src, src + n, dst)\<close> move-constructs slot \<open>i\<close> of \<open>dst\<close> from slot
  \<open>i\<close> of \<open>src\<close>, for \<open>i = 0, \<dots>, n - 1\<close>; the source object stays alive in its moved-from
  state. On a throw the objects built in \<open>dst\<close> are destroyed. It returns the end of the
  destination range, here the offset \<open>n\<close>.
\<close>

fun move_loop ::
  "'a env \<Rightarrow> ptr \<Rightarrow> ptr \<Rightarrow> nat \<Rightarrow> nat \<Rightarrow> 'a memory \<Rightarrow> (unit, 'a memory) outcome" where
  "move_loop env src dst cur 0 m = Returns () m"
| "move_loop env src dst cur (Suc k) m =
     (case slot_at m src cur of
        Some (Live v) \<Rightarrow>
          (case construct_at env dst cur v m of
             Throws e m' \<Rightarrow> Throws e (destroy dst 0 cur m')
           | Returns u m' \<Rightarrow>
               move_loop env src dst (Suc cur) k (put_slot src cur (Live (moved_from env v)) m'))
      | _ \<Rightarrow> move_loop env src dst (Suc cur) k (add_fault InvalidAccess m))"

definition uninitialized_move ::
  "'a env \<Rightarrow> ptr \<Rightarrow> nat \<Rightarrow> ptr \<Rightarrow> 'a memory \<Rightarrow> (nat, 'a memory) outcome" where
  "uninitialized_move env src n dst m =
     (case move_loop env src dst 0 n m of
        Throws e m' \<Rightarrow> Throws e m'
      | Returns u m' \<Rightarrow> Returns n m')"

section \<open>The class \<^verbatim>\<open>Vector<T>\<close>\<close>

text \<open>
  The data members \<^verbatim>\<open>vector_\<close>, \<^verbatim>\<open>size_\<close> and \<^verbatim>\<open>capacity_\<close>. (An Isabelle name cannot end
  in an underscore, hence the suffix.) \<^verbatim>\<open>std::size_t\<close> is modelled by \<open>nat\<close>: a capacity is
  the length of an allocated array, so it is below \<open>2^63\<close> and \<^verbatim>\<open>2 * capacity_\<close> cannot wrap.
\<close>

record vec =
  vector_m :: ptr
  size_m :: nat
  capacity_m :: nat

type_synonym 'a state = "'a memory \<times> vec"

text \<open>When the allocation throws, \<^verbatim>\<open>vector_\<close> has not been assigned.\<close>

definition AllocateMemory :: "'a env \<Rightarrow> nat \<Rightarrow> 'a state \<Rightarrow> (unit, 'a state) outcome" where
  "AllocateMemory env capacity s =
     (case s of (m, v) \<Rightarrow>
        (case allocate env capacity m of
           Throws e m' \<Rightarrow> Throws e (m', v)
         | Returns p m' \<Rightarrow> Returns () (m', v\<lparr>vector_m := p\<rparr>)))"

definition DeallocateMemory :: "'a state \<Rightarrow> 'a state" where
  "DeallocateMemory s =
     (case s of (m, v) \<Rightarrow>
        (case vector_m v of
           None \<Rightarrow> (m, v)
         | Some b \<Rightarrow> (deallocate (vector_m v) (capacity_m v) m, v\<lparr>vector_m := None\<rparr>)))"

definition DestroyElements :: "nat \<Rightarrow> 'a state \<Rightarrow> 'a state" where
  "DestroyElements sz s = (case s of (m, v) \<Rightarrow> (destroy (vector_m v) 0 sz m, v))"

text \<open>In \<^verbatim>\<open>Reallocate\<close> the allocation is outside the \<^verbatim>\<open>try\<close> block.\<close>

definition Reallocate :: "'a env \<Rightarrow> nat \<Rightarrow> 'a state \<Rightarrow> (unit, 'a state) outcome" where
  "Reallocate env new_capacity s =
     (case s of (m, v) \<Rightarrow>
        (case allocate env new_capacity m of
           Throws e m1 \<Rightarrow> Throws e (m1, v)
         | Returns new_vector m1 \<Rightarrow>
             (case uninitialized_move env (vector_m v) (size_m v) new_vector m1 of
                Throws e m2 \<Rightarrow>
                  Throws e (deallocate new_vector new_capacity
                              (destroy new_vector 0 (size_m v) m2), v)
              | Returns new_vector_end m2 \<Rightarrow>
                  (case DeallocateMemory (DestroyElements (size_m v) (m2, v)) of (m3, v3) \<Rightarrow>
                     Returns () (m3, v3\<lparr>vector_m := new_vector,
                                        capacity_m := new_capacity\<rparr>)))))"

subsection \<open>Queries\<close>

definition Size :: "vec \<Rightarrow> nat" where
  "Size v = size_m v"

definition Capacity :: "vec \<Rightarrow> nat" where
  "Capacity v = capacity_m v"

definition Empty :: "vec \<Rightarrow> bool" where
  "Empty v = (size_m v = 0)"


text \<open>\<^verbatim>\<open>operator[]\<close>: the unchecked reference to slot \<open>index\<close>, a block pointer and an offset.\<close>

definition Index :: "vec \<Rightarrow> nat \<Rightarrow> ptr \<times> nat" where
  "Index v index = (vector_m v, index)"

text \<open>
  \<^verbatim>\<open>At\<close> returns such a reference or throws. It is passed the state and hands it back, as
  the member function could write to it.
\<close>

definition At :: "nat \<Rightarrow> 'a state \<Rightarrow> (ptr \<times> nat, 'a state) outcome" where
  "At index s =
     (case s of (m, v) \<Rightarrow>
        if index \<ge> size_m v then Throws OutOfRange (m, v)
        else Returns (vector_m v, index) (m, v))"

text \<open>Reading through a reference.\<close>

definition deref :: "'a memory \<Rightarrow> ptr \<times> nat \<Rightarrow> 'a slot option" where
  "deref m r = slot_at m (fst r) (snd r)"

subsection \<open>Constructors and the destructor\<close>

text \<open>
  A constructor returns the new object, or throws and leaves none. The constructors other
  than the default and the move constructor do not initialise \<^verbatim>\<open>vector_\<close>; until
  \<^verbatim>\<open>AllocateMemory\<close> has assigned it, it holds \<open>junk env\<close>, and the handlers read it when the
  allocation itself throws.
\<close>

definition Vector :: vec where
  "Vector = \<lparr>vector_m = None, size_m = 0, capacity_m = 0\<rparr>"



text \<open>
  The loop \<^verbatim>\<open>for (; i < size_; i++) new (vector_ + i) T(value);\<close> of the sized-with-value
  constructor. The last number counts the iterations left, \<^verbatim>\<open>size_ - i\<close>; the loop hands back
  \<open>i\<close>, which the handler reads.
\<close>

fun value_loop ::
  "'a env \<Rightarrow> ptr \<Rightarrow> 'a cref \<Rightarrow> nat \<Rightarrow> nat \<Rightarrow> 'a memory \<Rightarrow> (unit, nat \<times> 'a memory) outcome" where
  "value_loop env p a i 0 m = Returns () (i, m)"
| "value_loop env p a i (Suc k) m =
     (case copy_construct_at env p i a m of
        Throws e m' \<Rightarrow> Throws e (i, m')
      | Returns u m' \<Rightarrow> value_loop env p a (Suc i) k m')"

definition Vector_value ::
  "'a env \<Rightarrow> nat \<Rightarrow> 'a cref \<Rightarrow> 'a memory \<Rightarrow> (vec, 'a memory) outcome" where
  "Vector_value env sz val m =
     (let v = \<lparr>vector_m = junk env, size_m = sz, capacity_m = sz\<rparr>
      in case AllocateMemory env sz (m, v) of
           Throws e s1 \<Rightarrow>
             Throws e (fst (DeallocateMemory (destroy (vector_m (snd s1)) 0 0 (fst s1), snd s1)))
         | Returns u s1 \<Rightarrow>
             (case value_loop env (vector_m (snd s1)) val 0 (size_m (snd s1)) (fst s1) of
                Throws e (i, m2) \<Rightarrow>
                  Throws e (fst (DeallocateMemory (destroy (vector_m (snd s1)) 0 i m2, snd s1)))
              | Returns u' (i, m2) \<Rightarrow> Returns (snd s1) m2))"




text \<open>
  The loop of the copy constructor,
  \<^verbatim>\<open>for (; size_ < other.size_; ++size_) new (vector_ + size_) T(other.vector_[size_]);\<close>.
  It runs on the member \<^verbatim>\<open>size_\<close> itself and hands it back. Reading a slot of the source that
  holds no live element is recorded as a fault.
\<close>

fun copy_loop ::
  "'a env \<Rightarrow> ptr \<Rightarrow> ptr \<Rightarrow> nat \<Rightarrow> nat \<Rightarrow> 'a memory \<Rightarrow> (unit, nat \<times> 'a memory) outcome" where
  "copy_loop env src dst sz 0 m = Returns () (sz, m)"
| "copy_loop env src dst sz (Suc k) m =
     (case slot_at m src sz of
        Some (Live x) \<Rightarrow>
          (case construct_at env dst sz x m of
             Throws e m' \<Rightarrow> Throws e (sz, m')
           | Returns u m' \<Rightarrow> copy_loop env src dst (Suc sz) k m')
      | _ \<Rightarrow> copy_loop env src dst (Suc sz) k (add_fault InvalidAccess m))"

definition Vector_copy :: "'a env \<Rightarrow> vec \<Rightarrow> 'a memory \<Rightarrow> (vec, 'a memory) outcome" where
  "Vector_copy env other m =
     (let v = \<lparr>vector_m = junk env, size_m = 0, capacity_m = 0\<rparr>
      in case AllocateMemory env (capacity_m other) (m, v) of
           Throws e s1 \<Rightarrow>
             Throws e (deallocate (vector_m (snd s1)) (capacity_m other)
                         (destroy (vector_m (snd s1)) 0 (size_m (snd s1)) (fst s1)))
         | Returns u s1 \<Rightarrow>
             (case copy_loop env (vector_m other) (vector_m (snd s1)) (size_m (snd s1))
                     (size_m other - size_m (snd s1)) (fst s1) of
                Throws e (sz, m2) \<Rightarrow>
                  Throws e (deallocate (vector_m (snd s1)) (capacity_m other)
                              (destroy (vector_m (snd s1)) 0 sz m2))
              | Returns u' (sz, m2) \<Rightarrow>
                  Returns ((snd s1)\<lparr>size_m := size_m other, capacity_m := capacity_m other\<rparr>)
                    m2))"

text \<open>The move constructor returns the new object and what is left of the source.\<close>

definition Vector_move :: "vec \<Rightarrow> vec \<times> vec" where
  "Vector_move other =
     (\<lparr>vector_m = vector_m other, size_m = size_m other, capacity_m = capacity_m other\<rparr>,
      other\<lparr>vector_m := None, size_m := 0, capacity_m := 0\<rparr>)"

subsection \<open>Swap and assignment\<close>

text \<open>
  These members take a second container by reference, and both assignments compare the two
  addresses. Containers therefore live in a store, and the members get the addresses
  \<open>this\<close> and \<open>other\<close>.
\<close>

type_synonym 'a world = "'a memory \<times> (nat \<Rightarrow> vec)"




definition MoveAssign :: "nat \<Rightarrow> nat \<Rightarrow> 'a world \<Rightarrow> 'a world" where
  "MoveAssign this other w =
     (case w of (m, objs) \<Rightarrow>
        if this \<noteq> other then
          (case DeallocateMemory (DestroyElements (size_m (objs this)) (m, objs this)) of
             (m1, v1) \<Rightarrow>
               (m1, objs(this := v1\<lparr>vector_m := vector_m (objs other),
                                      size_m := size_m (objs other),
                                      capacity_m := capacity_m (objs other)\<rparr>,
                         other := (objs other)\<lparr>vector_m := None, size_m := 0,
                                                capacity_m := 0\<rparr>)))
        else (m, objs))"

subsection \<open>Resize, Reserve, ShrinkToFit, Clear\<close>

text \<open>
  \<^verbatim>\<open>Resize(n, value)\<close> takes \<^verbatim>\<open>value\<close> by const reference and fills from it after the old
  elements have been moved. When the allocation throws, the handler releases the null
  \<^verbatim>\<open>new_vector\<close> and rethrows.
\<close>

definition Resize_value ::
  "'a env \<Rightarrow> nat \<Rightarrow> 'a cref \<Rightarrow> 'a state \<Rightarrow> (unit, 'a state) outcome" where
  "Resize_value env new_size val s =
     (case s of (m, v) \<Rightarrow>
        if new_size > capacity_m v then
          (case allocate env new_size m of
             Throws e m1 \<Rightarrow> Throws e (deallocate None new_size m1, v)
           | Returns new_vector m1 \<Rightarrow>
               (case uninitialized_move env (vector_m v) (size_m v) new_vector m1 of
                  Throws e m2 \<Rightarrow> Throws e (deallocate new_vector new_size m2, v)
                | Returns new_vector_end m2 \<Rightarrow>
                    (case uninitialized_fill env new_vector new_vector_end new_size val m2 of
                       Throws e m3 \<Rightarrow>
                         Throws e (deallocate new_vector new_size
                                     (destroy new_vector 0 new_vector_end m3), v)
                     | Returns u m3 \<Rightarrow>
                         (case DeallocateMemory (DestroyElements (size_m v) (m3, v)) of
                            (m4, v4) \<Rightarrow>
                              Returns () (m4, v4\<lparr>vector_m := new_vector, size_m := new_size,
                                                  capacity_m := new_size\<rparr>)))))
        else if new_size > size_m v then
          (case uninitialized_fill env (vector_m v) (size_m v) new_size val m of
             Throws e m1 \<Rightarrow> Throws e (destroy (vector_m v) (size_m v) new_size m1, v)
           | Returns u m1 \<Rightarrow> Returns () (m1, v\<lparr>size_m := new_size\<rparr>))
        else if new_size < size_m v then
          Returns () (destroy (vector_m v) new_size (size_m v) m, v\<lparr>size_m := new_size\<rparr>)
        else Returns () (m, v))"

text \<open>
  In the growing branch of \<^verbatim>\<open>Resize(n)\<close> one handler serves the move and the value
  construction: \<^verbatim>\<open>new_vector_end\<close> is still \<^verbatim>\<open>new_vector\<close> when the move throws, and
  \<^verbatim>\<open>new_vector + size_\<close> when the construction does.
\<close>

definition Resize :: "'a env \<Rightarrow> nat \<Rightarrow> 'a state \<Rightarrow> (unit, 'a state) outcome" where
  "Resize env new_size s =
     (case s of (m, v) \<Rightarrow>
        if new_size > capacity_m v then
          (case allocate env new_size m of
             Throws e m1 \<Rightarrow> Throws e (deallocate None new_size m1, v)
           | Returns new_vector m1 \<Rightarrow>
               (case uninitialized_move env (vector_m v) (size_m v) new_vector m1 of
                  Throws e m2 \<Rightarrow>
                    Throws e (deallocate new_vector new_size (destroy new_vector 0 0 m2), v)
                | Returns new_vector_end m2 \<Rightarrow>
                    (case uninitialized_value_construct_n env new_vector new_vector_end
                            (new_size - size_m v) m2 of
                       Throws e m3 \<Rightarrow>
                         Throws e (deallocate new_vector new_size
                                     (destroy new_vector 0 new_vector_end m3), v)
                     | Returns u m3 \<Rightarrow>
                         (case DeallocateMemory (DestroyElements (size_m v) (m3, v)) of
                            (m4, v4) \<Rightarrow>
                              Returns () (m4, v4\<lparr>vector_m := new_vector, size_m := new_size,
                                                  capacity_m := new_size\<rparr>)))))
        else if new_size > size_m v then
          (case uninitialized_value_construct_n env (vector_m v) (size_m v)
                  (new_size - size_m v) m of
             Throws e m1 \<Rightarrow> Throws e (destroy (vector_m v) (size_m v) new_size m1, v)
           | Returns u m1 \<Rightarrow> Returns () (m1, v\<lparr>size_m := new_size\<rparr>))
        else if new_size < size_m v then
          Returns () (destroy (vector_m v) new_size (size_m v) m, v\<lparr>size_m := new_size\<rparr>)
        else Returns () (m, v))"

definition Reserve :: "'a env \<Rightarrow> nat \<Rightarrow> 'a state \<Rightarrow> (unit, 'a state) outcome" where
  "Reserve env new_capacity s =
     (case s of (m, v) \<Rightarrow>
        if new_capacity > capacity_m v then Reallocate env new_capacity (m, v)
        else Returns () (m, v))"


definition Clear :: "'a state \<Rightarrow> 'a state" where
  "Clear s = (case DestroyElements (size_m (snd s)) s of (m, v) \<Rightarrow> (m, v\<lparr>size_m := 0\<rparr>))"

subsection \<open>PushBack and PopBack\<close>

text \<open>
  \<^verbatim>\<open>PushBack(const T& value)\<close>. In the growing branch the new element is constructed from
  \<^verbatim>\<open>value\<close> after the old elements have been moved into the new block. The handler of that
  branch destroys \<^verbatim>\<open>[new_vector, new_vector_end + 1)\<close>, where \<^verbatim>\<open>new_vector_end\<close> is
  \<^verbatim>\<open>new_vector\<close> when the move throws and \<^verbatim>\<open>new_vector + size_\<close> when the construction of the
  new element does.
\<close>

definition PushBack :: "'a env \<Rightarrow> 'a cref \<Rightarrow> 'a state \<Rightarrow> (unit, 'a state) outcome" where
  "PushBack env val s =
     (case s of (m, v) \<Rightarrow>
        if size_m v = capacity_m v then
          (let new_capacity = (if capacity_m v = 0 then 1 else 2 * capacity_m v)
           in case allocate env new_capacity m of
                Throws e m1 \<Rightarrow> Throws e (deallocate None new_capacity m1, v)
              | Returns new_vector m1 \<Rightarrow>
                  (case uninitialized_move env (vector_m v) (size_m v) new_vector m1 of
                     Throws e m2 \<Rightarrow>
                       Throws e (deallocate new_vector new_capacity
                                   (destroy new_vector 0 (0 + 1) m2), v)
                   | Returns new_vector_end m2 \<Rightarrow>
                       (case copy_construct_at env new_vector new_vector_end val m2 of
                          Throws e m3 \<Rightarrow>
                            Throws e (deallocate new_vector new_capacity
                                        (destroy new_vector 0 (new_vector_end + 1) m3), v)
                        | Returns u m3 \<Rightarrow>
                            (case DeallocateMemory (DestroyElements (size_m v) (m3, v)) of
                               (m4, v4) \<Rightarrow>
                                 Returns () (m4, v4\<lparr>vector_m := new_vector,
                                                     size_m := size_m v + 1,
                                                     capacity_m := new_capacity\<rparr>)))))
        else
          (case copy_construct_at env (vector_m v) (size_m v) val m of
             Throws e m1 \<Rightarrow> Throws e (destroy_at (vector_m v) (size_m v) m1, v)
           | Returns u m1 \<Rightarrow> Returns () (m1, v\<lparr>size_m := size_m v + 1\<rparr>)))"

text \<open>
  \<^verbatim>\<open>PushBack(T&& value)\<close> has the same body, with the new element move-constructed from
  \<^verbatim>\<open>value\<close>.
\<close>

definition PushBack_rv :: "'a env \<Rightarrow> 'a cref \<Rightarrow> 'a state \<Rightarrow> (unit, 'a state) outcome" where
  "PushBack_rv env val s =
     (case s of (m, v) \<Rightarrow>
        if size_m v = capacity_m v then
          (let new_capacity = (if capacity_m v = 0 then 1 else 2 * capacity_m v)
           in case allocate env new_capacity m of
                Throws e m1 \<Rightarrow> Throws e (deallocate None new_capacity m1, v)
              | Returns new_vector m1 \<Rightarrow>
                  (case uninitialized_move env (vector_m v) (size_m v) new_vector m1 of
                     Throws e m2 \<Rightarrow>
                       Throws e (deallocate new_vector new_capacity
                                   (destroy new_vector 0 (0 + 1) m2), v)
                   | Returns new_vector_end m2 \<Rightarrow>
                       (case move_construct_at env new_vector new_vector_end val m2 of
                          Throws e m3 \<Rightarrow>
                            Throws e (deallocate new_vector new_capacity
                                        (destroy new_vector 0 (new_vector_end + 1) m3), v)
                        | Returns u m3 \<Rightarrow>
                            (case DeallocateMemory (DestroyElements (size_m v) (m3, v)) of
                               (m4, v4) \<Rightarrow>
                                 Returns () (m4, v4\<lparr>vector_m := new_vector,
                                                     size_m := size_m v + 1,
                                                     capacity_m := new_capacity\<rparr>)))))
        else
          (case move_construct_at env (vector_m v) (size_m v) val m of
             Throws e m1 \<Rightarrow> Throws e (destroy_at (vector_m v) (size_m v) m1, v)
           | Returns u m1 \<Rightarrow> Returns () (m1, v\<lparr>size_m := size_m v + 1\<rparr>)))"


section \<open>Reading a container\<close>

fun live :: "'a slot \<Rightarrow> bool" where
  "live (Live x) = True"
| "live Raw = False"
| "live Dead = False"

text \<open>The slots of the block a pointer refers to; none for \<^verbatim>\<open>nullptr\<close> or a released block.\<close>

definition cells :: "'a memory \<Rightarrow> ptr \<Rightarrow> 'a slot list" where
  "cells m p =
     (case p of
        None \<Rightarrow> []
      | Some b \<Rightarrow> (case blocks m b of Freed \<Rightarrow> [] | Block cs \<Rightarrow> cs))"

text \<open>The slots \<open>[0, size)\<close> of a container, which hold its elements.\<close>

definition elems :: "'a memory \<Rightarrow> vec \<Rightarrow> 'a slot list" where
  "elems m v = take (size_m v) (cells m (vector_m v))"

text \<open>
  A container is well formed in a memory when \<open>size \<le> capacity\<close>, a null pointer comes with
  capacity 0, and otherwise the pointer refers to a live block of \<open>capacity\<close> slots whose
  first \<open>size\<close> slots hold live elements.
\<close>

definition owns :: "'a memory \<Rightarrow> vec \<Rightarrow> bool" where
  "owns m v =
     (size_m v \<le> capacity_m v \<and>
      (case vector_m v of
         None \<Rightarrow> capacity_m v = 0
       | Some b \<Rightarrow>
           b < brk m \<and>
           (case blocks m b of
              Freed \<Rightarrow> False
            | Block cs \<Rightarrow> length cs = capacity_m v \<and> list_all live (take (size_m v) cs))))"



text \<open>An empty memory, and element types for concrete runs: \<^verbatim>\<open>int\<close>-like elements whose
  \<open>n\<close>-th construction throws, or none; and element types that a move hollows out, leaving
  the value 0, as a smart pointer is left null.\<close>

definition mem0 :: "int memory" where
  "mem0 = \<lparr>blocks = (\<lambda>b. Freed), brk = 0, faults = [], allocs = 0, ctors = 0, dtors = 0\<rparr>"

definition fails_at :: "nat \<Rightarrow> int env" where
  "fails_at n = \<lparr>alloc_throws = (\<lambda>k n. False), throws = (\<lambda>k. k = n), moved_from = (\<lambda>x. x),
     dflt = 0, dinit = 0, null_on_zero = False, junk = None\<rparr>"

definition no_fail :: "int env" where
  "no_fail = \<lparr>alloc_throws = (\<lambda>k n. False), throws = (\<lambda>k. False), moved_from = (\<lambda>x. x),
     dflt = 0, dinit = 0, null_on_zero = False, junk = None\<rparr>"

definition hollowing :: "nat \<Rightarrow> int env" where
  "hollowing n = \<lparr>alloc_throws = (\<lambda>k n. False), throws = (\<lambda>k. k = n), moved_from = (\<lambda>x. 0),
     dflt = 0, dinit = 0, null_on_zero = False, junk = None\<rparr>"

definition hollow :: "int env" where
  "hollow = \<lparr>alloc_throws = (\<lambda>k n. False), throws = (\<lambda>k. False), moved_from = (\<lambda>x. 0),
     dflt = 0, dinit = 0, null_on_zero = False, junk = None\<rparr>"

text \<open>
  The state a constructor call leaves: the memory with the new object, or with an empty
  container where the constructor threw and built none.
\<close>

fun built :: "(vec, 'a memory) outcome \<Rightarrow> 'a state" where
  "built (Returns v m) = (m, v)"
| "built (Throws e m) = (m, Vector)"

subsection \<open>Sequences of pushes\<close>

text \<open>An argument of \<^verbatim>\<open>PushBack\<close> selects the overload: a const reference or an rvalue.\<close>

datatype 'a arg = ByRef "'a cref" | ByRvalue "'a cref"

fun push :: "'a env \<Rightarrow> 'a arg \<Rightarrow> 'a state \<Rightarrow> (unit, 'a state) outcome" where
  "push env (ByRef a) s = PushBack env a s"
| "push env (ByRvalue a) s = PushBack_rv env a s"

text \<open>Pushing one argument after the other; a throw ends the sequence, as it would the caller.\<close>

fun push_all :: "'a env \<Rightarrow> 'a arg list \<Rightarrow> 'a state \<Rightarrow> (unit, 'a state) outcome" where
  "push_all env [] s = Returns () s"
| "push_all env (a # as) s =
     (case push env a s of
        Throws e s' \<Rightarrow> Throws e s'
      | Returns u s' \<Rightarrow> push_all env as s')"

text \<open>The capacity observed after each push of a sequence.\<close>

fun capacities :: "'a env \<Rightarrow> 'a arg list \<Rightarrow> 'a state \<Rightarrow> nat list" where
  "capacities env [] s = []"
| "capacities env (a # as) s =
     (case push env a s of
        Throws e s' \<Rightarrow> []
      | Returns u s' \<Rightarrow> Capacity (snd s') # capacities env as s')"

subsection \<open>Auxiliary notions for the proofs\<close>

text \<open>The list \<open>cs\<close> with the slots \<open>lo, \<dots>, hi - 1\<close> replaced by \<open>f lo, \<dots>, f (hi - 1)\<close>.\<close>

definition upd_range :: "nat \<Rightarrow> nat \<Rightarrow> (nat \<Rightarrow> 'b) \<Rightarrow> 'b list \<Rightarrow> 'b list" where
  "upd_range lo hi f cs = map (\<lambda>i. if lo \<le> i \<and> i < hi then f i else cs ! i) [0..<length cs]"


text \<open>A store with the container \<open>a\<close> at address 0 and \<open>b\<close> at every other address.\<close>

definition store2 :: "vec \<Rightarrow> vec \<Rightarrow> nat \<Rightarrow> vec" where
  "store2 a b = (\<lambda>k. if k = 0 then a else b)"


section \<open>Lemmas on the storage primitives\<close>

lemma length_upd_range [simp]: "length (upd_range lo hi f cs) = length cs"
  by (simp add: upd_range_def)

lemma nth_upd_range:
  "i < length cs \<Longrightarrow> upd_range lo hi f cs ! i = (if lo \<le> i \<and> i < hi then f i else cs ! i)"
  by (simp add: upd_range_def)

lemma upd_range_empty: "hi \<le> lo \<Longrightarrow> upd_range lo hi f cs = cs"
  by (rule nth_equalityI) (auto simp: nth_upd_range)

lemma upd_range_step:
  assumes "lo < hi" "lo < length cs" "\<forall>i. lo < i \<and> i < hi \<longrightarrow> g i = f i" "x = f lo"
  shows "upd_range (Suc lo) hi g (cs[lo := x]) = upd_range lo hi f cs"
  using assms by (intro nth_equalityI) (auto simp: nth_upd_range nth_list_update)

lemma upd_range_last:
  assumes "lo \<le> hi" "hi < length cs"
  shows "(upd_range lo hi f cs)[hi := f hi] = upd_range lo (Suc hi) f cs"
  using assms by (intro nth_equalityI) (auto simp: nth_upd_range nth_list_update)

lemma destroy_Suc: "lo \<le> hi \<Longrightarrow> destroy p lo (Suc hi) m = destroy_at p hi (destroy p lo hi m)"
  by (simp add: destroy_def)

lemma destroy_empty: "hi \<le> lo \<Longrightarrow> destroy p lo hi m = m"
  by (simp add: destroy_def)

lemma destroy_live:
  assumes "blocks m b = Block cs" "hi \<le> length cs" "\<forall>i. lo \<le> i \<and> i < hi \<longrightarrow> live (cs ! i)"
  shows "blocks (destroy (Some b) lo hi m) = (blocks m)(b := Block (upd_range lo hi (\<lambda>i. Dead) cs))
       \<and> brk (destroy (Some b) lo hi m) = brk m
       \<and> faults (destroy (Some b) lo hi m) = faults m
       \<and> ctors (destroy (Some b) lo hi m) = ctors m
       \<and> dtors (destroy (Some b) lo hi m) = dtors m + (hi - lo)"
  using assms
proof (induction hi)
  case 0
  then show ?case by (auto simp: destroy_empty upd_range_empty fun_eq_iff)
next
  case (Suc hi)
  show ?case
  proof (cases "lo \<le> hi")
    case False
    then show ?thesis using Suc.prems(1) by (auto simp: destroy_empty upd_range_empty fun_eq_iff)
  next
    case True
    let ?m = "destroy (Some b) lo hi m"
    have p1: "hi \<le> length cs" and p2: "\<forall>i. lo \<le> i \<and> i < hi \<longrightarrow> live (cs ! i)"
      using Suc.prems by auto
    note ih0 = Suc.IH[OF Suc.prems(1) p1 p2]
    note ih = conjunct1[OF ih0] conjunct1[OF conjunct2[OF ih0]]
      conjunct1[OF conjunct2[OF conjunct2[OF ih0]]]
      conjunct1[OF conjunct2[OF conjunct2[OF conjunct2[OF ih0]]]]
      conjunct2[OF conjunct2[OF conjunct2[OF conjunct2[OF ih0]]]]
    obtain x where x: "cs ! hi = Live x" using Suc.prems True by (cases "cs ! hi") auto
    have s: "slot_at ?m (Some b) hi = Some (Live x)"
      using Suc.prems x by (simp add: slot_at_def ih nth_upd_range)
    have d: "destroy_at (Some b) hi ?m = ?m\<lparr>dtors := Suc (dtors ?m), blocks := (blocks ?m)(b := Block ((upd_range lo hi (\<lambda>i. Dead) cs)[hi := Dead]))\<rparr>"
      using Suc.prems by (simp add: destroy_at_def s put_slot_def ih)
    have "(upd_range lo hi (\<lambda>i. Dead) cs)[hi := Dead] = upd_range lo (Suc hi) (\<lambda>i. Dead) cs"
      using upd_range_last[of lo hi cs "\<lambda>i. Dead"] True Suc.prems by simp
    then show ?thesis using True
      by (auto simp add: destroy_Suc d ih fun_eq_iff)
  qed
qed





lemma owns_SomeE:
  assumes "owns m v" "vector_m v = Some b"
  obtains cs where "blocks m b = Block cs" "length cs = capacity_m v"
    "\<forall>i<size_m v. live (cs ! i)" "b < brk m" "size_m v \<le> capacity_m v"
    "elems m v = take (size_m v) cs"
  using assms by (auto simp: owns_def elems_def cells_def list_all_length split: block.splits)


lemma elems_at: "vector_m v = Some b \<Longrightarrow> blocks m b = Block cs \<Longrightarrow> elems m v = take (size_m v) cs"
  by (simp add: elems_def cells_def)



lemma owns_frame:
  assumes "owns m v" "brk m \<le> brk m'" "\<forall>b. vector_m v = Some b \<longrightarrow> blocks m' b = blocks m b"
  shows "owns m' v \<and> elems m' v = elems m v"
  using assms by (cases "vector_m v") (auto simp: owns_def elems_def cells_def split: block.splits)

lemma allocate_ok:
  assumes "\<not> alloc_throws env (allocs m) n"
  shows "allocate env n m =
     Returns (fst (fresh_block env n (m\<lparr>allocs := Suc (allocs m)\<rparr>)))
             (snd (fresh_block env n (m\<lparr>allocs := Suc (allocs m)\<rparr>)))"
  using assms by (simp add: allocate_def Let_def split_beta)

lemma allocate_fail:
  assumes "alloc_throws env (allocs m) n"
  shows "allocate env n m = Throws BadAlloc (m\<lparr>allocs := Suc (allocs m)\<rparr>)"
  using assms by (simp add: allocate_def Let_def)



lemma release_ok:
  assumes "owns m v"
  shows "\<exists>m'. DeallocateMemory (DestroyElements (size_m v) (m, v)) = (m', v\<lparr>vector_m := None\<rparr>)
     \<and> faults m' = faults m \<and> brk m' = brk m \<and> ctors m' = ctors m
     \<and> (\<forall>c. Some c \<noteq> vector_m v \<longrightarrow> blocks m' c = blocks m c)
     \<and> (\<forall>b. vector_m v = Some b \<longrightarrow> blocks m' b = Freed)
     \<and> dtors m' = dtors m + size_m v"
proof (cases "vector_m v")
  case None
  then have e: "v\<lparr>vector_m := None\<rparr> = v" by (cases v) simp
  show ?thesis using None assms
    by (auto simp: DeallocateMemory_def DestroyElements_def destroy_empty owns_def e)
next
  case (Some b)
  obtain cs where o: "blocks m b = Block cs" "length cs = capacity_m v"
    "\<forall>i<size_m v. live (cs ! i)" "b < brk m" "size_m v \<le> capacity_m v"
    using owns_SomeE[OF assms(1) Some] by blast
  let ?cs = "cs"
  let ?m1 = "destroy (Some b) 0 (size_m v) m"
  have d: "blocks ?m1 = (blocks m)(b := Block (upd_range 0 (size_m v) (\<lambda>i. Dead) ?cs))
       \<and> brk ?m1 = brk m \<and> faults ?m1 = faults m \<and> ctors ?m1 = ctors m
       \<and> dtors ?m1 = dtors m + (size_m v - 0)"
    using o by (intro destroy_live) auto
  show ?thesis using d o Some
    by (auto simp: DeallocateMemory_def DestroyElements_def deallocate_def)
qed

lemma destroy_at_allocs [simp]: "allocs (destroy_at p i m) = allocs m"
  by (auto simp: destroy_at_def put_slot_def add_fault_def
      split: option.splits slot.splits block.splits)

lemma destroy_allocs [simp]: "allocs (destroy p lo hi m) = allocs m"
proof -
  have "allocs (fold (destroy_at p) is m) = allocs m" for "is"
    by (induction "is" arbitrary: m) simp_all
  then show ?thesis by (simp add: destroy_def)
qed

lemma deallocate_allocs [simp]: "allocs (deallocate p n m) = allocs m"
  by (auto simp: deallocate_def add_fault_def split: option.splits block.splits)

lemma release_allocs [simp]:
  "allocs (fst (DeallocateMemory (DestroyElements k (m, v)))) = allocs m"
  by (auto simp: DeallocateMemory_def DestroyElements_def split: option.splits)

lemma release_fields: "snd (DeallocateMemory (DestroyElements k (m, v))) = v\<lparr>vector_m := None\<rparr>"
  by (cases v) (auto simp: DeallocateMemory_def DestroyElements_def split: option.splits)

lemma copy_construct_Ext [simp]:
  "copy_construct_at env p i (Ext x) m = construct_at env p i x m"
  by (simp add: copy_construct_at_def read_ref_def)

lemma move_construct_Ext [simp]:
  "move_construct_at env p i (Ext x) m = construct_at env p i x m"
  by (simp add: move_construct_at_def read_ref_def construct_at_def Let_def)

lemma PushBack_rv_Ext: "PushBack_rv env (Ext x) s = PushBack env (Ext x) s"
  by (simp add: PushBack_rv_def PushBack_def Let_def
      cong: prod.case_cong outcome.case_cong if_cong)

subsection \<open>Calls that return\<close>

lemma move_loop_returns:
  assumes "\<forall>j. \<not> throws env j"
  shows "\<exists>m'. move_loop env src dst cur k m = Returns () m'"
proof (induction k arbitrary: m cur)
  case 0
  show ?case by simp
next
  case (Suc k)
  show ?case
  proof (cases "slot_at m src cur")
    case None
    then show ?thesis using Suc.IH by simp
  next
    case (Some s)
    then show ?thesis using Suc.IH assms
      by (cases s) (simp_all add: construct_at_def Let_def)
  qed
qed

lemma uninitialized_move_returns:
  assumes "\<forall>j. \<not> throws env j"
  shows "\<exists>m'. uninitialized_move env src n dst m = Returns n m'"
  using move_loop_returns[OF assms, of src dst 0 n m]
  by (auto simp: uninitialized_move_def)

lemma copy_construct_returns:
  assumes "\<forall>j. \<not> throws env j"
  shows "\<exists>m'. copy_construct_at env p i a m = Returns () m'"
  using assms by (simp add: copy_construct_at_def construct_at_def Let_def split: option.splits)

lemma move_construct_returns:
  assumes "\<forall>j. \<not> throws env j"
  shows "\<exists>m'. move_construct_at env p i a m = Returns () m'"
  using assms by (simp add: move_construct_at_def construct_at_def Let_def split: option.splits)

lemma PushBack_returns:
  assumes "\<forall>j. \<not> throws env j" "\<forall>k n. \<not> alloc_throws env k n"
  shows "\<exists>m' v'. PushBack env a (m, v) = Returns () (m', v')
     \<and> size_m v' = Suc (size_m v)
     \<and> capacity_m v' = (if size_m v = capacity_m v then max 1 (2 * capacity_m v) else capacity_m v)"
proof (cases "size_m v = capacity_m v")
  case False
  obtain m1 where "copy_construct_at env (vector_m v) (size_m v) a m = Returns () m1"
    using copy_construct_returns[OF assms(1)] by blast
  then show ?thesis using False by (simp add: PushBack_def)
next
  case True
  let ?nc = "if capacity_m v = 0 then 1 else 2 * capacity_m v"
  let ?m0 = "m\<lparr>allocs := Suc (allocs m)\<rparr>"
  have al: "allocate env ?nc m = Returns (fst (fresh_block env ?nc ?m0)) (snd (fresh_block env ?nc ?m0))"
    using assms(2) by (intro allocate_ok) simp
  obtain m2 where m2: "uninitialized_move env (vector_m v) (size_m v) (fst (fresh_block env ?nc ?m0))
      (snd (fresh_block env ?nc ?m0)) = Returns (size_m v) m2"
    using uninitialized_move_returns[OF assms(1)] by blast
  obtain m3 where m3: "copy_construct_at env (fst (fresh_block env ?nc ?m0)) (size_m v) a m2 = Returns () m3"
    using copy_construct_returns[OF assms(1)] by blast
  have "PushBack env a (m, v) = Returns ()
      (fst (DeallocateMemory (DestroyElements (size_m v) (m3, v))),
       (snd (DeallocateMemory (DestroyElements (size_m v) (m3, v))))
         \<lparr>vector_m := fst (fresh_block env ?nc ?m0), size_m := size_m v + 1, capacity_m := ?nc\<rparr>)"
    using True al m2 m3 by (simp add: PushBack_def Let_def split_beta)
  then show ?thesis using True by auto
qed

lemma PushBack_rv_returns:
  assumes "\<forall>j. \<not> throws env j" "\<forall>k n. \<not> alloc_throws env k n"
  shows "\<exists>m' v'. PushBack_rv env a (m, v) = Returns () (m', v')
     \<and> size_m v' = Suc (size_m v)
     \<and> capacity_m v' = (if size_m v = capacity_m v then max 1 (2 * capacity_m v) else capacity_m v)"
proof (cases "size_m v = capacity_m v")
  case False
  obtain m1 where "move_construct_at env (vector_m v) (size_m v) a m = Returns () m1"
    using move_construct_returns[OF assms(1)] by blast
  then show ?thesis using False by (simp add: PushBack_rv_def)
next
  case True
  let ?nc = "if capacity_m v = 0 then 1 else 2 * capacity_m v"
  let ?m0 = "m\<lparr>allocs := Suc (allocs m)\<rparr>"
  have al: "allocate env ?nc m = Returns (fst (fresh_block env ?nc ?m0)) (snd (fresh_block env ?nc ?m0))"
    using assms(2) by (intro allocate_ok) simp
  obtain m2 where m2: "uninitialized_move env (vector_m v) (size_m v) (fst (fresh_block env ?nc ?m0))
      (snd (fresh_block env ?nc ?m0)) = Returns (size_m v) m2"
    using uninitialized_move_returns[OF assms(1)] by blast
  obtain m3 where m3: "move_construct_at env (fst (fresh_block env ?nc ?m0)) (size_m v) a m2 = Returns () m3"
    using move_construct_returns[OF assms(1)] by blast
  have "PushBack_rv env a (m, v) = Returns ()
      (fst (DeallocateMemory (DestroyElements (size_m v) (m3, v))),
       (snd (DeallocateMemory (DestroyElements (size_m v) (m3, v))))
         \<lparr>vector_m := fst (fresh_block env ?nc ?m0), size_m := size_m v + 1, capacity_m := ?nc\<rparr>)"
    using True al m2 m3 by (simp add: PushBack_rv_def Let_def split_beta)
  then show ?thesis using True by auto
qed

lemma PushBack_capacity:
  "PushBack env a (m, v) = Returns u (m', v') \<Longrightarrow>
   capacity_m v' = (if size_m v = capacity_m v then max 1 (2 * capacity_m v) else capacity_m v)"
  by (auto simp: PushBack_def Let_def release_fields split_beta
      split: prod.splits outcome.splits if_splits)

lemma PushBack_rv_capacity:
  "PushBack_rv env a (m, v) = Returns u (m', v') \<Longrightarrow>
   capacity_m v' = (if size_m v = capacity_m v then max 1 (2 * capacity_m v) else capacity_m v)"
  by (auto simp: PushBack_rv_def Let_def release_fields split_beta
      split: prod.splits outcome.splits if_splits)

lemma push_returns:
  assumes "\<forall>j. \<not> throws env j" "\<forall>k n. \<not> alloc_throws env k n"
  shows "\<exists>m' v'. push env a (m, v) = Returns () (m', v')
     \<and> size_m v' = Suc (size_m v)
     \<and> capacity_m v' = (if size_m v = capacity_m v then max 1 (2 * capacity_m v) else capacity_m v)"
proof (cases a)
  case (ByRef r)
  then show ?thesis using PushBack_returns[OF assms, of r m v] by simp
next
  case (ByRvalue r)
  then show ?thesis using PushBack_rv_returns[OF assms, of r m v] by simp
qed

lemma live_replicate [simp]: "list_all live (replicate k (Live x))"
  by (simp add: list_all_iff)







lemma owns_Vector: "owns m Vector" "elems m Vector = []" "size_m Vector = 0"
  by (simp_all add: owns_def Vector_def elems_def)

lemma owns_deref:
  assumes "owns m v" "i < size_m v"
  shows "deref m (Index v i) = Some (elems m v ! i)"
proof -
  obtain b where b: "vector_m v = Some b"
    using assms by (cases "vector_m v") (auto simp: owns_def)
  obtain cs where o: "blocks m b = Block cs" "length cs = capacity_m v"
    "size_m v \<le> capacity_m v" "elems m v = take (size_m v) cs"
    using owns_SomeE[OF assms(1) b] by blast
  show ?thesis using assms(2) b o by (simp add: deref_def Index_def slot_at_def)
qed

subsection \<open>The storage pointer and the capacity\<close>
















subsection \<open>Copy construction and move assignment\<close>

lemma copy_loop_ok:
  assumes "b \<noteq> d" "blocks m b = Block cs" "blocks m d = Block ds"
    "sz + k \<le> length cs" "sz + k \<le> length ds"
    "\<forall>i. sz \<le> i \<and> i < sz + k \<longrightarrow> live (cs ! i)" "\<forall>j<k. \<not> throws env (ctors m + j)"
  shows "\<exists>m'. copy_loop env (Some b) (Some d) sz k m = Returns () (sz + k, m')
       \<and> blocks m' = (blocks m)(d := Block (upd_range sz (sz + k) (\<lambda>i. cs ! i) ds))
       \<and> brk m' = brk m \<and> faults m' = faults m \<and> ctors m' = ctors m + k
       \<and> dtors m' = dtors m \<and> allocs m' = allocs m"
  using assms
proof (induction k arbitrary: m sz ds)
  case 0
  then show ?case by (auto simp: upd_range_empty fun_eq_iff)
next
  case (Suc k)
  obtain x where x: "cs ! sz = Live x" using Suc.prems(6) by (cases "cs ! sz") auto
  let ?ds1 = "ds[sz := Live x]"
  let ?m1 = "m\<lparr>ctors := Suc (ctors m), blocks := (blocks m)(d := Block ?ds1)\<rparr>"
  have s: "slot_at m (Some b) sz = Some (Live x)"
    using Suc.prems x by (simp add: slot_at_def)
  have nt: "\<not> throws env (ctors m)" using Suc.prems(7) by force
  have step: "copy_loop env (Some b) (Some d) sz (Suc k) m = copy_loop env (Some b) (Some d) (Suc sz) k ?m1"
    using Suc.prems s nt by (simp add: construct_at_def put_slot_def)
  have nt': "\<forall>j<k. \<not> throws env (ctors ?m1 + j)"
  proof (intro allI impI)
    fix j assume "j < k"
    then have "Suc j < Suc k" by simp
    then have "\<not> throws env (ctors m + Suc j)" using Suc.prems(7) by blast
    then show "\<not> throws env (ctors ?m1 + j)" by simp
  qed
  have ih: "\<exists>m'. copy_loop env (Some b) (Some d) (Suc sz) k ?m1 = Returns () (Suc sz + k, m')
       \<and> blocks m' = (blocks ?m1)(d := Block (upd_range (Suc sz) (Suc sz + k) (\<lambda>i. cs ! i) ?ds1))
       \<and> brk m' = brk ?m1 \<and> faults m' = faults ?m1 \<and> ctors m' = ctors ?m1 + k
       \<and> dtors m' = dtors ?m1 \<and> allocs m' = allocs ?m1"
    by (rule Suc.IH[OF _ _ _ _ _ _ nt']) (use Suc.prems in auto)
  have e2: "upd_range (Suc sz) (Suc sz + k) (\<lambda>i. cs ! i) ?ds1 = upd_range sz (sz + Suc k) (\<lambda>i. cs ! i) ds"
    using Suc.prems x by (intro nth_equalityI) (auto simp: nth_upd_range nth_list_update)
  show ?case using ih unfolding step e2 by (auto simp: fun_eq_iff)
qed

lemma copy_loop_fail:
  assumes "b \<noteq> d" "blocks m b = Block cs" "blocks m d = Block ds"
    "sz + k \<le> length cs" "sz + k \<le> length ds"
    "\<forall>i. sz \<le> i \<and> i < sz + k \<longrightarrow> live (cs ! i)"
    "j < k" "throws env (ctors m + j)" "\<forall>i<j. \<not> throws env (ctors m + i)"
  shows "\<exists>m'. copy_loop env (Some b) (Some d) sz k m = Throws ConstructionFailure (sz + j, m')
       \<and> blocks m' = (blocks m)(d := Block (upd_range sz (sz + j) (\<lambda>i. cs ! i) ds))
       \<and> brk m' = brk m \<and> faults m' = faults m \<and> ctors m' = Suc (ctors m + j)
       \<and> dtors m' = dtors m \<and> allocs m' = allocs m"
  using assms
proof (induction k arbitrary: m sz ds j)
  case 0
  then show ?case by simp
next
  case (Suc k)
  obtain x where x: "cs ! sz = Live x" using Suc.prems(6) by (cases "cs ! sz") auto
  have s: "slot_at m (Some b) sz = Some (Live x)"
    using Suc.prems x by (simp add: slot_at_def)
  show ?case
  proof (cases j)
    case 0
    then have "throws env (ctors m)" using Suc.prems(8) by simp
    then show ?thesis using 0 s Suc.prems(3)
      by (auto simp: construct_at_def upd_range_empty fun_eq_iff)
  next
    case (Suc j')
    let ?ds1 = "ds[sz := Live x]"
    let ?m1 = "m\<lparr>ctors := Suc (ctors m), blocks := (blocks m)(d := Block ?ds1)\<rparr>"
    have nt: "\<not> throws env (ctors m)" using Suc.prems(9) Suc by force
    have step: "copy_loop env (Some b) (Some d) sz (Suc k) m = copy_loop env (Some b) (Some d) (Suc sz) k ?m1"
      using Suc.prems s nt by (simp add: construct_at_def put_slot_def)
    have a1: "j' < k" using Suc Suc.prems(7) by simp
    have a2: "throws env (ctors ?m1 + j')" using Suc Suc.prems(8) by simp
    have a3: "\<forall>i<j'. \<not> throws env (ctors ?m1 + i)"
    proof (intro allI impI)
      fix i assume "i < j'"
      then have "Suc i < j" using Suc by simp
      then have "\<not> throws env (ctors m + Suc i)" using Suc.prems(9) by blast
      then show "\<not> throws env (ctors ?m1 + i)" by simp
    qed
    have ih: "\<exists>m'. copy_loop env (Some b) (Some d) (Suc sz) k ?m1 = Throws ConstructionFailure (Suc sz + j', m')
       \<and> blocks m' = (blocks ?m1)(d := Block (upd_range (Suc sz) (Suc sz + j') (\<lambda>i. cs ! i) ?ds1))
       \<and> brk m' = brk ?m1 \<and> faults m' = faults ?m1 \<and> ctors m' = Suc (ctors ?m1 + j')
       \<and> dtors m' = dtors ?m1 \<and> allocs m' = allocs ?m1"
      by (rule Suc.IH[OF _ _ _ _ _ _ a1 a2 a3]) (use Suc.prems in auto)
    have e2: "upd_range (Suc sz) (Suc sz + j') (\<lambda>i. cs ! i) ?ds1 = upd_range sz (sz + j) (\<lambda>i. cs ! i) ds"
      using Suc.prems x Suc by (intro nth_equalityI) (auto simp: nth_upd_range nth_list_update)
    show ?thesis using ih Suc unfolding step e2 by (auto simp: fun_eq_iff)
  qed
qed


lemma Vector_copy_ok:
  assumes "owns m other" "\<forall>k<size_m other. \<not> throws env (ctors m + k)"
    "\<not> alloc_throws env (allocs m) (capacity_m other)"
  shows "\<exists>m' v. Vector_copy env other m = Returns v m'
     \<and> capacity_m v = capacity_m other \<and> size_m v = size_m other
     \<and> elems m' v = elems m other \<and> owns m' v \<and> owns m' other
     \<and> cells m' (vector_m other) = cells m (vector_m other)
     \<and> vector_m v = (if capacity_m other = 0 \<and> null_on_zero env then None else Some (brk m))
     \<and> brk m' = (if capacity_m other = 0 \<and> null_on_zero env then brk m else Suc (brk m))
     \<and> (\<forall>c. c < brk m \<longrightarrow> blocks m' c = blocks m c)
     \<and> faults m' = faults m \<and> dtors m' = dtors m \<and> ctors m' = ctors m + size_m other
     \<and> allocs m' = Suc (allocs m)"
proof (cases "size_m other = 0")
  case True
  let ?m0 = "m\<lparr>allocs := Suc (allocs m)\<rparr>"
  let ?p = "fst (fresh_block env (capacity_m other) ?m0)"
  let ?m1 = "snd (fresh_block env (capacity_m other) ?m0)"
  let ?v = "\<lparr>vector_m = ?p, size_m = size_m other, capacity_m = capacity_m other\<rparr>"
  note al = allocate_ok[OF assms(3)]
  have r: "Vector_copy env other m = Returns ?v ?m1"
    using True al by (simp add: Vector_copy_def AllocateMemory_def Let_def split_beta)
  have fr: "brk m \<le> brk ?m1" "\<forall>b. vector_m other = Some b \<longrightarrow> blocks ?m1 b = blocks m b"
    "faults ?m1 = faults m" "dtors ?m1 = dtors m" "ctors ?m1 = ctors m"
    "allocs ?m1 = Suc (allocs m)" "\<forall>c. c < brk m \<longrightarrow> blocks ?m1 c = blocks m c"
    "?p = (if capacity_m other = 0 \<and> null_on_zero env then None else Some (brk m))"
    "brk ?m1 = (if capacity_m other = 0 \<and> null_on_zero env then brk m else Suc (brk m))"
    using assms(1) by (auto simp: fresh_block_def owns_def)
  note o = owns_frame[OF assms(1) fr(1,2)]
  have c: "cells ?m1 (vector_m other) = cells m (vector_m other)"
    using fr(2) by (cases "vector_m other") (auto simp: cells_def)
  have ov: "owns ?m1 ?v" using True by (auto simp: owns_def fresh_block_def)
  have ev: "elems ?m1 ?v = elems m other" using True by (simp add: elems_def)
  show ?thesis using r o c ov ev fr True by simp
next
  case False
  then obtain b where b: "vector_m other = Some b"
    using assms(1) by (cases "vector_m other") (auto simp: owns_def)
  obtain cs where o: "blocks m b = Block cs" "length cs = capacity_m other"
    "\<forall>i<size_m other. live (cs ! i)" "b < brk m" "size_m other \<le> capacity_m other"
    "elems m other = take (size_m other) cs"
    using owns_SomeE[OF assms(1) b] by blast
  let ?n = "size_m other"
  let ?cap = "capacity_m other"
  let ?d = "brk m"
  let ?m0 = "m\<lparr>allocs := Suc (allocs m)\<rparr>"
  let ?m1 = "snd (fresh_block env ?cap ?m0)"
  note al = allocate_ok[OF assms(3)]
  have cap: "0 < ?cap" using False o(5) by simp
  have a: "fst (fresh_block env ?cap ?m0) = Some ?d"
    "blocks ?m1 = (blocks m)(?d := Block (replicate ?cap Raw))"
    "brk ?m1 = Suc ?d" "faults ?m1 = faults m" "ctors ?m1 = ctors m" "dtors ?m1 = dtors m"
    "allocs ?m1 = Suc (allocs m)"
    using cap by (simp_all add: fresh_block_def)
  have bd: "b \<noteq> ?d" using o by simp
  have "\<exists>m'. copy_loop env (Some b) (Some ?d) 0 ?n ?m1 = Returns () (0 + ?n, m')
       \<and> blocks m' = (blocks ?m1)(?d := Block (upd_range 0 (0 + ?n) (\<lambda>i. cs ! i) (replicate ?cap Raw)))
       \<and> brk m' = brk ?m1 \<and> faults m' = faults ?m1 \<and> ctors m' = ctors ?m1 + ?n
       \<and> dtors m' = dtors ?m1 \<and> allocs m' = allocs ?m1"
    using o bd assms(2) by (intro copy_loop_ok) (auto simp: a)
  then obtain m2 where m2: "copy_loop env (Some b) (Some ?d) 0 ?n ?m1 = Returns () (?n, m2)"
     "blocks m2 = (blocks m)(?d := Block (upd_range 0 ?n (\<lambda>i. cs ! i) (replicate ?cap Raw)))"
     "brk m2 = Suc ?d" "faults m2 = faults m" "ctors m2 = ctors m + ?n" "dtors m2 = dtors m"
     "allocs m2 = Suc (allocs m)"
    by (auto simp: a)
  let ?ds = "upd_range 0 ?n (\<lambda>i. cs ! i) (replicate ?cap Raw)"
  let ?v = "\<lparr>vector_m = Some ?d, size_m = ?n, capacity_m = ?cap\<rparr>"
  have r: "Vector_copy env other m = Returns ?v m2"
    using m2(1) a(1) b al by (simp add: Vector_copy_def AllocateMemory_def Let_def split_beta)
  have tk: "take ?n ?ds = take ?n cs"
    using o by (intro nth_equalityI) (auto simp: nth_upd_range)
  have bl: "blocks m2 ?d = Block ?ds" using m2(2) by simp
  have lv: "list_all live (take ?n cs)" using o by (auto simp: list_all_length)
  have ov: "owns m2 ?v" using bl tk lv o(5) m2(3) by (simp add: owns_def)
  have ev: "elems m2 ?v = elems m other"
    using elems_at[of ?v ?d m2, OF _ bl] tk o(6) by simp
  have fr: "brk m \<le> brk m2" "\<forall>b. vector_m other = Some b \<longrightarrow> blocks m2 b = blocks m b"
    using m2(2,3) b bd by auto
  note oo = owns_frame[OF assms(1) fr]
  have c: "cells m2 (vector_m other) = cells m (vector_m other)"
    using fr(2) b by (simp add: cells_def)
  have oth: "\<forall>c. c < brk m \<longrightarrow> blocks m2 c = blocks m c" using m2(2) by simp
  show ?thesis using r ov ev oo c m2 a(1) cap oth by simp
qed

lemma Vector_copy_fail:
  assumes "owns m other" "j < size_m other" "throws env (ctors m + j)"
    "\<forall>k<j. \<not> throws env (ctors m + k)"
    "\<not> alloc_throws env (allocs m) (capacity_m other)"
  shows "\<exists>m'. Vector_copy env other m = Throws ConstructionFailure m'
     \<and> blocks m' (brk m) = Freed \<and> brk m' = Suc (brk m)
     \<and> (\<forall>c. c \<noteq> brk m \<longrightarrow> blocks m' c = blocks m c)
     \<and> owns m' other \<and> elems m' other = elems m other
     \<and> cells m' (vector_m other) = cells m (vector_m other)
     \<and> faults m' = faults m \<and> dtors m' = dtors m + j \<and> ctors m' = Suc (ctors m + j)
     \<and> allocs m' = Suc (allocs m)"
proof -
  obtain b where b: "vector_m other = Some b"
    using assms(1,2) by (cases "vector_m other") (auto simp: owns_def)
  obtain cs where o: "blocks m b = Block cs" "length cs = capacity_m other"
    "\<forall>i<size_m other. live (cs ! i)" "b < brk m" "size_m other \<le> capacity_m other"
    "elems m other = take (size_m other) cs"
    using owns_SomeE[OF assms(1) b] by blast
  let ?n = "size_m other"
  let ?cap = "capacity_m other"
  let ?d = "brk m"
  let ?m0 = "m\<lparr>allocs := Suc (allocs m)\<rparr>"
  let ?m1 = "snd (fresh_block env ?cap ?m0)"
  note al = allocate_ok[OF assms(5)]
  have cap: "0 < ?cap" using assms(2) o(5) by simp
  have a: "fst (fresh_block env ?cap ?m0) = Some ?d"
    "blocks ?m1 = (blocks m)(?d := Block (replicate ?cap Raw))"
    "brk ?m1 = Suc ?d" "faults ?m1 = faults m" "ctors ?m1 = ctors m" "dtors ?m1 = dtors m"
    "allocs ?m1 = Suc (allocs m)"
    using cap by (simp_all add: fresh_block_def)
  have bd: "b \<noteq> ?d" using o by simp
  let ?ds = "upd_range 0 j (\<lambda>i. cs ! i) (replicate ?cap Raw)"
  have "\<exists>m'. copy_loop env (Some b) (Some ?d) 0 ?n ?m1 = Throws ConstructionFailure (0 + j, m')
       \<and> blocks m' = (blocks ?m1)(?d := Block (upd_range 0 (0 + j) (\<lambda>i. cs ! i) (replicate ?cap Raw)))
       \<and> brk m' = brk ?m1 \<and> faults m' = faults ?m1 \<and> ctors m' = Suc (ctors ?m1 + j)
       \<and> dtors m' = dtors ?m1 \<and> allocs m' = allocs ?m1"
    using o bd assms(2,3,4) by (intro copy_loop_fail) (auto simp: a)
  then obtain m2 where m2: "copy_loop env (Some b) (Some ?d) 0 ?n ?m1 = Throws ConstructionFailure (j, m2)"
     "blocks m2 = (blocks m)(?d := Block ?ds)"
     "brk m2 = Suc ?d" "faults m2 = faults m" "ctors m2 = Suc (ctors m + j)" "dtors m2 = dtors m"
     "allocs m2 = Suc (allocs m)"
    by (auto simp: a)
  have bl: "blocks m2 ?d = Block ?ds" using m2(2) by simp
  have lds: "j \<le> length ?ds" "\<forall>i. 0 \<le> i \<and> i < j \<longrightarrow> live (?ds ! i)"
    using assms(2) o by (auto simp: nth_upd_range)
  let ?m3 = "destroy (Some ?d) 0 j m2"
  have d3: "blocks ?m3 = (blocks m2)(?d := Block (upd_range 0 j (\<lambda>i. Dead) ?ds))
       \<and> brk ?m3 = brk m2 \<and> faults ?m3 = faults m2 \<and> ctors ?m3 = ctors m2
       \<and> dtors ?m3 = dtors m2 + (j - 0)"
    using destroy_live[OF bl lds] .
  let ?m4 = "deallocate (Some ?d) ?cap ?m3"
  have d4: "blocks ?m4 = (blocks ?m3)(?d := Freed)" "brk ?m4 = brk ?m3" "faults ?m4 = faults ?m3"
    "ctors ?m4 = ctors ?m3" "dtors ?m4 = dtors ?m3" "allocs ?m4 = allocs m2"
    using d3 o(2) by (simp_all add: deallocate_def)
  have r: "Vector_copy env other m = Throws ConstructionFailure ?m4"
    using m2(1) a(1) b al by (simp add: Vector_copy_def AllocateMemory_def Let_def split_beta)
  have fr: "brk m \<le> brk ?m4" "\<forall>b. vector_m other = Some b \<longrightarrow> blocks ?m4 b = blocks m b"
    using d4 d3 m2(2,3) b bd by auto
  note oo = owns_frame[OF assms(1) fr]
  have c: "cells ?m4 (vector_m other) = cells m (vector_m other)"
    using fr(2) b by (simp add: cells_def)
  have oth: "\<forall>c. c \<noteq> ?d \<longrightarrow> blocks ?m4 c = blocks m c"
    using d4 d3 m2(2) by simp
  show ?thesis using r oo c oth d4 d3 m2 by simp
qed

lemma owns_fields:
  "vector_m a = vector_m b \<Longrightarrow> size_m a = size_m b \<Longrightarrow> capacity_m a = capacity_m b \<Longrightarrow>
   owns m a = owns m b"
  by (cases a, cases b) simp

lemma MoveAssign_distinct:
  assumes "this \<noteq> other" "owns m (objs this)"
    "vector_m (objs this) = None \<or> vector_m (objs this) \<noteq> vector_m (objs other)"
  shows "\<exists>m' objs'. MoveAssign this other (m, objs) = (m', objs')
     \<and> size_m (objs' other) = 0 \<and> capacity_m (objs' other) = 0 \<and> vector_m (objs' other) = None
     \<and> vector_m (objs' this) = vector_m (objs other)
     \<and> size_m (objs' this) = size_m (objs other)
     \<and> capacity_m (objs' this) = capacity_m (objs other)
     \<and> elems m' (objs' this) = elems m (objs other)
     \<and> (owns m (objs other) \<longrightarrow> owns m' (objs' this))
     \<and> (\<forall>k. k \<noteq> this \<and> k \<noteq> other \<longrightarrow> objs' k = objs k)
     \<and> (\<forall>b. vector_m (objs this) = Some b \<longrightarrow> blocks m' b = Freed)
     \<and> ctors m' = ctors m \<and> brk m' = brk m \<and> faults m' = faults m
     \<and> allocs m' = allocs m
     \<and> dtors m' = dtors m + size_m (objs this)"
proof -
  let ?t = "objs this"
  let ?o = "objs other"
  obtain m' where r: "DeallocateMemory (DestroyElements (size_m ?t) (m, ?t)) = (m', ?t\<lparr>vector_m := None\<rparr>)"
     "faults m' = faults m" "brk m' = brk m" "ctors m' = ctors m"
     "\<forall>c. Some c \<noteq> vector_m ?t \<longrightarrow> blocks m' c = blocks m c"
     "\<forall>b. vector_m ?t = Some b \<longrightarrow> blocks m' b = Freed"
     "dtors m' = dtors m + size_m ?t"
    using release_ok[OF assms(2)] by blast
  have ra: "allocs m' = allocs m"
    using release_allocs[of "size_m ?t" m ?t] r(1) by simp
  let ?objs' = "objs(this := (?t\<lparr>vector_m := None\<rparr>)\<lparr>vector_m := vector_m ?o, size_m := size_m ?o,
                                      capacity_m := capacity_m ?o\<rparr>,
                     other := ?o\<lparr>vector_m := None, size_m := 0, capacity_m := 0\<rparr>)"
  have ma: "MoveAssign this other (m, objs) = (m', ?objs')"
    using assms(1) r(1) by (simp add: MoveAssign_def)
  have fr: "\<forall>b. vector_m ?o = Some b \<longrightarrow> blocks m' b = blocks m b"
    using r(5) assms(3) by auto
  have c: "cells m' (vector_m ?o) = cells m (vector_m ?o)"
    using fr by (cases "vector_m ?o") (auto simp: cells_def)
  have el: "elems m' (?objs' this) = elems m ?o"
    using assms(1) c by (simp add: elems_def)
  have ow: "owns m' (?objs' this)" if "owns m ?o"
  proof -
    have "owns m' ?o" using owns_frame[OF that, of m'] r(3) fr by simp
    then show ?thesis using assms(1) owns_fields[of "?objs' this" ?o m'] by simp
  qed
  show ?thesis using ma el ow r ra assms(1) by auto
qed

section \<open>Claims\<close>

text \<open>
  C1. The claim: after any sequence of \<open>N\<close> calls of \<^verbatim>\<open>PushBack\<close> on a default-constructed
  container, none of them failing, the elements are the pushed values in push order.
  \<^verbatim>\<open>PushBack\<close> takes its argument by reference and, when the storage grows, constructs the
  new element from it after the old elements have been moved out of the old block. The code
  at \<^verbatim>\<open>Vector<T> a; a.PushBack(1); a.PushBack(a[0]);\<close> with an element type that a move
  hollows out: \<^verbatim>\<open>a[0]\<close> holds 1 when the second call is made, the call returns with size 2
  and without a lifetime fault, and the container holds 1 and the moved-from value 0, not
  1 and 1. With room left (\<^verbatim>\<open>a.Reserve(2)\<close> first) the same calls give 1 and 1, and so do they
  for \<^verbatim>\<open>int\<close> elements. The calls \<^verbatim>\<open>PushBack(1); PushBack(2); PushBack(3)\<close> of the spec give
  1, 2, 3.
\<close>

theorem PushBack_own_element:
  "read_ref (fst (state_of (PushBack hollow (Ext 1) (mem0, Vector))))
            (Elem (Index (snd (state_of (PushBack hollow (Ext 1) (mem0, Vector)))) 0)) = Some 1
   \<and> \<not> threw (PushBack hollow
                 (Elem (Index (snd (state_of (PushBack hollow (Ext 1) (mem0, Vector)))) 0))
                 (state_of (PushBack hollow (Ext 1) (mem0, Vector))))
   \<and> Size (snd (state_of (PushBack hollow
                 (Elem (Index (snd (state_of (PushBack hollow (Ext 1) (mem0, Vector)))) 0))
                 (state_of (PushBack hollow (Ext 1) (mem0, Vector)))))) = 2
   \<and> elems (fst (state_of (PushBack hollow
                 (Elem (Index (snd (state_of (PushBack hollow (Ext 1) (mem0, Vector)))) 0))
                 (state_of (PushBack hollow (Ext 1) (mem0, Vector))))))
            (snd (state_of (PushBack hollow
                 (Elem (Index (snd (state_of (PushBack hollow (Ext 1) (mem0, Vector)))) 0))
                 (state_of (PushBack hollow (Ext 1) (mem0, Vector))))))
       = [Live 1, Live 0]
   \<and> faults (fst (state_of (PushBack hollow
                 (Elem (Index (snd (state_of (PushBack hollow (Ext 1) (mem0, Vector)))) 0))
                 (state_of (PushBack hollow (Ext 1) (mem0, Vector)))))) = []
   \<and> elems (fst (state_of (PushBack hollow
                 (Elem (Index (snd (state_of (PushBack hollow (Ext 1)
                    (state_of (Reserve hollow 2 (mem0, Vector)))))) 0))
                 (state_of (PushBack hollow (Ext 1) (state_of (Reserve hollow 2 (mem0, Vector))))))))
            (snd (state_of (PushBack hollow
                 (Elem (Index (snd (state_of (PushBack hollow (Ext 1)
                    (state_of (Reserve hollow 2 (mem0, Vector)))))) 0))
                 (state_of (PushBack hollow (Ext 1) (state_of (Reserve hollow 2 (mem0, Vector))))))))
       = [Live 1, Live 1]
   \<and> elems (fst (state_of (PushBack no_fail
                 (Elem (Index (snd (state_of (PushBack no_fail (Ext 1) (mem0, Vector)))) 0))
                 (state_of (PushBack no_fail (Ext 1) (mem0, Vector))))))
            (snd (state_of (PushBack no_fail
                 (Elem (Index (snd (state_of (PushBack no_fail (Ext 1) (mem0, Vector)))) 0))
                 (state_of (PushBack no_fail (Ext 1) (mem0, Vector))))))
       = [Live 1, Live 1]
   \<and> elems (fst (state_of (push_all hollow [ByRef (Ext 1), ByRvalue (Ext 2), ByRef (Ext 3)]
                              (mem0, Vector))))
            (snd (state_of (push_all hollow [ByRef (Ext 1), ByRvalue (Ext 2), ByRef (Ext 3)]
                              (mem0, Vector))))
       = [Live 1, Live 2, Live 3]"
  by code_simp

text \<open>
  C5. A \<^verbatim>\<open>PushBack\<close> (either overload) that returns normally sets the capacity to
  \<open>max 1 (2 * capacity)\<close> when it was called with \<open>size = capacity\<close>, and leaves the capacity
  unchanged otherwise. Three pushes into a default-constructed container, with no
  allocation and no construction throwing, return and see the capacities 1, 2, 4.
\<close>

theorem PushBack_growth:
  "(PushBack env x (m, v) = Returns u (m', v') \<longrightarrow>
      Capacity v' = (if Size v = Capacity v then max 1 (2 * Capacity v) else Capacity v))
   \<and> (PushBack_rv env x (m, v) = Returns u (m', v') \<longrightarrow>
      Capacity v' = (if Size v = Capacity v then max 1 (2 * Capacity v) else Capacity v))
   \<and> ((\<forall>k. \<not> throws env k) \<and> (\<forall>k n. \<not> alloc_throws env k n) \<longrightarrow>
        capacities env [a, b, c] (m, Vector) = [1, 2, 4])"
proof -
  have 3: "capacities env [a, b, c] (m, Vector) = [1, 2, 4]"
    if nt: "\<forall>k. \<not> throws env k" and na: "\<forall>k n. \<not> alloc_throws env k n"
  proof -
    obtain m1 v1 where s1: "push env a (m, Vector) = Returns () (m1, v1)"
      "size_m v1 = 1" "capacity_m v1 = 1"
      using push_returns[OF nt na, where m=m and a=a and v=Vector] by (auto simp: Vector_def)
    obtain m2 v2 where s2: "push env b (m1, v1) = Returns () (m2, v2)"
      "size_m v2 = 2" "capacity_m v2 = 2"
      using push_returns[OF nt na, where m=m1 and a=b and v=v1] s1(2,3) by auto
    obtain m3 v3 where s3: "push env c (m2, v2) = Returns () (m3, v3)" "capacity_m v3 = 4"
      using push_returns[OF nt na, where m=m2 and a=c and v=v2] s2(2,3) by auto
    show ?thesis using s1 s2 s3 by (simp add: Capacity_def)
  qed
  show ?thesis
    using 3 PushBack_capacity[where env=env and a=x and m=m and v=v and u=u and m'=m' and v'=v']
      PushBack_rv_capacity[where env=env and a=x and m=m and v=v and u=u and m'=m' and v'=v']
    by (simp add: Capacity_def Size_def)
qed

theorem PushBack_growth_witness:
  "(\<forall>k. \<not> throws no_fail k) \<and> (\<forall>k n. \<not> alloc_throws no_fail k n) \<and>
   capacities no_fail [ByRef (Ext 1), ByRef (Ext 2), ByRvalue (Ext 3)] (mem0, Vector) = [1, 2, 4] \<and>
   PushBack no_fail (Ext 1) (mem0, Vector)
     = Returns () (state_of (PushBack no_fail (Ext 1) (mem0, Vector))) \<and>
   Capacity (snd (state_of (PushBack no_fail (Ext 1) (mem0, Vector)))) = 1 \<and>
   PushBack_rv no_fail (Ext 1) (mem0, Vector)
     = Returns () (state_of (PushBack_rv no_fail (Ext 1) (mem0, Vector))) \<and>
   Capacity (snd (state_of (PushBack_rv no_fail (Ext 1) (mem0, Vector)))) = 1"
proof -
  have h: "\<forall>k. \<not> throws no_fail k" "\<forall>k n. \<not> alloc_throws no_fail k n"
    by (simp_all add: no_fail_def)
  obtain m1 v1 where "PushBack no_fail (Ext 1) (mem0, Vector) = Returns () (m1, v1)"
    using PushBack_returns[OF h, where a="Ext 1" and m=mem0 and v=Vector] by blast
  then have p: "PushBack no_fail (Ext 1) (mem0, Vector)
     = Returns () (state_of (PushBack no_fail (Ext 1) (mem0, Vector)))" by simp
  have q: "PushBack_rv no_fail (Ext 1) (mem0, Vector)
     = Returns () (state_of (PushBack_rv no_fail (Ext 1) (mem0, Vector)))"
    using p by (simp add: PushBack_rv_Ext)
  show ?thesis
    using h p q
      PushBack_growth[where env=no_fail and x="Ext 1" and m=mem0 and v=Vector and u="()"
         and m'="fst (state_of (PushBack no_fail (Ext 1) (mem0, Vector)))"
         and v'="snd (state_of (PushBack no_fail (Ext 1) (mem0, Vector)))"
         and a="ByRef (Ext 1)" and b="ByRef (Ext 2)" and c="ByRvalue (Ext 3)"]
    by (simp add: PushBack_rv_Ext Size_def Capacity_def Vector_def)
qed



text \<open>
  C2. The claim: when the construction of the new element in \<^verbatim>\<open>PushBack\<close> throws, the
  container is unchanged, no destructor runs on a slot that was never constructed, and the
  new block is released. The code at three runs with \<^verbatim>\<open>int\<close>-like elements:
  \<^item> \<^verbatim>\<open>Reserve(2); PushBack(1); PushBack(5)\<close> with the last construction throwing: the handler
    of the in-capacity branch runs \<^verbatim>\<open>destroy_at\<close> on slot 1, which was never constructed;
  \<^item> \<^verbatim>\<open>PushBack(1); PushBack(5)\<close> with the construction of 5 throwing after the move: the
    handler of the growing branch destroys \<^verbatim>\<open>[new_vector, new_vector_end + 1)\<close>, whose last
    slot was never constructed;
  \<^item> the same run with an element type that a move hollows out: the container that held 1
    holds the moved-from value afterwards.
\<close>

theorem PushBack_failure_faults:
  "threw (PushBack (fails_at 1) (Ext 5)
            (state_of (PushBack (fails_at 1) (Ext 1)
               (state_of (Reserve (fails_at 1) 2 (mem0, Vector))))))
   \<and> faults (fst (state_of (PushBack (fails_at 1) (Ext 5)
            (state_of (PushBack (fails_at 1) (Ext 1)
               (state_of (Reserve (fails_at 1) 2 (mem0, Vector))))))))
       = [DestroyUnconstructed 0 1]
   \<and> threw (PushBack (fails_at 2) (Ext 5) (state_of (PushBack (fails_at 2) (Ext 1) (mem0, Vector))))
   \<and> faults (fst (state_of (PushBack (fails_at 2) (Ext 5)
            (state_of (PushBack (fails_at 2) (Ext 1) (mem0, Vector))))))
       = [DestroyUnconstructed 1 1]
   \<and> elems (fst (state_of (PushBack (hollowing 2) (Ext 1) (mem0, Vector))))
            (snd (state_of (PushBack (hollowing 2) (Ext 1) (mem0, Vector)))) = [Live 1]
   \<and> threw (PushBack (hollowing 2) (Ext 5)
            (state_of (PushBack (hollowing 2) (Ext 1) (mem0, Vector))))
   \<and> elems (fst (state_of (PushBack (hollowing 2) (Ext 5)
                 (state_of (PushBack (hollowing 2) (Ext 1) (mem0, Vector))))))
            (snd (state_of (PushBack (hollowing 2) (Ext 5)
                 (state_of (PushBack (hollowing 2) (Ext 1) (mem0, Vector))))))
       = [Live 0]"
  by code_simp

text \<open>
  C3. The claim: when filling \<open>[size, n)\<close> in place throws, each constructed slot of the new
  suffix is destroyed exactly once and no unconstructed slot is destroyed. The code at
  \<^verbatim>\<open>Vector a(1, 7); a.Reserve(3); a.Resize(3, 9)\<close>, where the construction at slot 2 throws:
  the library call has destroyed slot 1 when the exception reaches the handler, and the
  handler destroys \<open>[1, 3)\<close>: slot 1 a second time and slot 2, which was never constructed.
  \<^verbatim>\<open>Resize(3)\<close> does the same.
\<close>

theorem Resize_failure_faults:
  "threw (Resize_value (fails_at 3) 3 (Ext 9)
            (state_of (Reserve (fails_at 3) 3 (built (Vector_value (fails_at 3) 1 (Ext 7) mem0)))))
   \<and> faults (fst (state_of (Resize_value (fails_at 3) 3 (Ext 9)
            (state_of (Reserve (fails_at 3) 3 (built (Vector_value (fails_at 3) 1 (Ext 7) mem0)))))))
       = [DestroyTwice 1 1, DestroyUnconstructed 1 2]
   \<and> threw (Resize (fails_at 3) 3
            (state_of (Reserve (fails_at 3) 3 (built (Vector_value (fails_at 3) 1 (Ext 7) mem0)))))
   \<and> faults (fst (state_of (Resize (fails_at 3) 3
            (state_of (Reserve (fails_at 3) 3 (built (Vector_value (fails_at 3) 1 (Ext 7) mem0)))))))
       = [DestroyTwice 1 1, DestroyUnconstructed 1 2]"
  by code_simp

text \<open>
  C9. \<^verbatim>\<open>At(i)\<close> throws \<^verbatim>\<open>OutOfRange\<close> exactly when \<open>i \<ge> Size()\<close>; otherwise it returns the
  reference to slot \<open>i\<close>, which in a well-formed container reads the element at index \<open>i\<close>.
  In both cases memory and container are as before. (The const overload has the same body.)
\<close>

theorem At_checked:
  "(threw (At i (m, v)) \<longleftrightarrow> i \<ge> Size v)
   \<and> (i \<ge> Size v \<longrightarrow> At i (m, v) = Throws OutOfRange (m, v))
   \<and> (i < Size v \<longrightarrow> At i (m, v) = Returns (Index v i) (m, v))
   \<and> (owns m v \<and> i < Size v \<longrightarrow>
        (\<exists>r. At i (m, v) = Returns r (m, v) \<and> deref m r = Some (elems m v ! i)))
   \<and> state_of (At i (m, v)) = (m, v)"
  using owns_deref[of m v i] by (auto simp: At_def Size_def Index_def)

theorem At_checked_witness:
  "At 10 (state_of (push_all no_fail [ByRef (Ext 1), ByRef (Ext 2), ByRef (Ext 3)] (mem0, Vector)))
     = Throws OutOfRange
         (state_of (push_all no_fail [ByRef (Ext 1), ByRef (Ext 2), ByRef (Ext 3)] (mem0, Vector)))
   \<and> Size (snd (state_of (push_all no_fail [ByRef (Ext 1), ByRef (Ext 2), ByRef (Ext 3)]
                   (mem0, Vector)))) = 3
   \<and> owns (fst (state_of (push_all no_fail [ByRef (Ext 1), ByRef (Ext 2), ByRef (Ext 3)]
                   (mem0, Vector))))
           (snd (state_of (push_all no_fail [ByRef (Ext 1), ByRef (Ext 2), ByRef (Ext 3)]
                   (mem0, Vector))))
   \<and> (\<exists>r. At 1 (state_of (push_all no_fail [ByRef (Ext 1), ByRef (Ext 2), ByRef (Ext 3)]
                   (mem0, Vector)))
            = Returns r (state_of (push_all no_fail [ByRef (Ext 1), ByRef (Ext 2), ByRef (Ext 3)]
                   (mem0, Vector)))
          \<and> deref (fst (state_of (push_all no_fail [ByRef (Ext 1), ByRef (Ext 2), ByRef (Ext 3)]
                   (mem0, Vector)))) r
            = Some (Live 2))"
proof -
  define s where
    "s = state_of (push_all no_fail [ByRef (Ext 1), ByRef (Ext 2), ByRef (Ext 3)] (mem0, Vector))"
  have sz: "Size (snd s) = 3" unfolding s_def by code_simp
  have ow: "owns (fst s) (snd s)" unfolding s_def by code_simp
  have el: "elems (fst s) (snd s) ! 1 = Live 2" unfolding s_def by code_simp
  have ge: "10 \<ge> Size (snd s)" and lt: "1 < Size (snd s)" using sz by simp_all
  note t10 = At_checked[of 10 "fst s" "snd s"]
  note t1 = At_checked[of 1 "fst s" "snd s"]
  have a: "At 10 (fst s, snd s) = Throws OutOfRange (fst s, snd s)"
    using t10 ge by blast
  have b: "\<exists>r. At 1 (fst s, snd s) = Returns r (fst s, snd s)
          \<and> deref (fst s) r = Some (elems (fst s) (snd s) ! 1)"
    using t1 lt ow by blast
  have "At 10 s = Throws OutOfRange s \<and> Size (snd s) = 3 \<and> owns (fst s) (snd s)
     \<and> (\<exists>r. At 1 s = Returns r s \<and> deref (fst s) r = Some (Live 2))"
    using a b sz ow el by (simp only: prod.collapse)
  then show ?thesis unfolding s_def .
qed

text \<open>
  C10. \<^verbatim>\<open>Empty()\<close> holds exactly when \<^verbatim>\<open>Size()\<close> is 0. A default-constructed container, the
  source of a move construction, the source of a move assignment to another container, and a
  container after \<^verbatim>\<open>Clear()\<close> are empty; \<^verbatim>\<open>Clear()\<close> keeps the capacity.
\<close>

theorem Empty_iff_Size_zero:
  "(Empty v \<longleftrightarrow> Size v = 0)
   \<and> Empty Vector
   \<and> Empty (snd (Vector_move v))
   \<and> (this \<noteq> other \<longrightarrow> Empty (snd (MoveAssign this other (m, objs)) other))
   \<and> Empty (snd (Clear (m, v))) \<and> Capacity (snd (Clear (m, v))) = Capacity v"
  by (auto simp: Empty_def Size_def Capacity_def Vector_def Vector_move_def MoveAssign_def
      Clear_def DestroyElements_def DeallocateMemory_def split: option.splits prod.splits)

theorem Empty_iff_Size_zero_witness:
  "(0::nat) \<noteq> 1
   \<and> Empty (snd (MoveAssign 0 1 (fst (built (Vector_value no_fail 3 (Ext 7) mem0)),
                store2 Vector (snd (built (Vector_value no_fail 3 (Ext 7) mem0))))) 1)
   \<and> \<not> Empty (store2 Vector (snd (built (Vector_value no_fail 3 (Ext 7) mem0))) 1)"
proof -
  have h: "(0::nat) \<noteq> 1" by simp
  have n: "\<not> Empty (store2 Vector (snd (built (Vector_value no_fail 3 (Ext 7) mem0))) 1)"
    by code_simp
  note t = Empty_iff_Size_zero[where this=0 and other=1 and v=Vector
        and m="fst (built (Vector_value no_fail 3 (Ext 7) mem0))"
        and objs="store2 Vector (snd (built (Vector_value no_fail 3 (Ext 7) mem0)))"]
  show ?thesis using h n t by blast
qed




text \<open>
  C7. Copy construction from a well-formed source, the allocation not throwing. If none of
  the \<open>size\<close> element copies throws, it returns a container with the capacity of the source
  (not its size), the size of the source and copies of its elements in index order: one
  allocation has been made, the container has the block it handed out (a fresh block of
  its own, or \<^verbatim>\<open>nullptr\<close> from a zero-length allocation), \<open>size\<close> elements have been
  constructed, and every block that existed before, the source's among them, is as it was.
  If the \<open>j\<close>-th copy is the first to throw, the constructor throws: exactly the \<open>j\<close> elements
  built so far have been destroyed, the block of the target has been released, no lifetime
  fault has occurred, and every other block, the source's among them, is as before.
\<close>

theorem copy_construction:
  assumes "owns m other" "\<not> alloc_throws env (allocs m) (Capacity other)"
  shows "((\<forall>k<Size other. \<not> throws env (ctors m + k)) \<longrightarrow>
       (\<exists>m' v. Vector_copy env other m = Returns v m'
          \<and> Capacity v = Capacity other \<and> Size v = Size other
          \<and> elems m' v = elems m other \<and> owns m' v \<and> owns m' other
          \<and> cells m' (vector_m other) = cells m (vector_m other)
          \<and> faults m' = faults m \<and> dtors m' = dtors m
          \<and> vector_m v = (if Capacity other = 0 \<and> null_on_zero env then None else Some (brk m))
          \<and> brk m' = (if Capacity other = 0 \<and> null_on_zero env then brk m else Suc (brk m))
          \<and> (\<forall>c. c < brk m \<longrightarrow> blocks m' c = blocks m c)
          \<and> ctors m' = ctors m + Size other \<and> allocs m' = Suc (allocs m)))
   \<and> (\<forall>j<Size other. throws env (ctors m + j) \<and> (\<forall>k<j. \<not> throws env (ctors m + k)) \<longrightarrow>
       (\<exists>m'. Vector_copy env other m = Throws ConstructionFailure m'
          \<and> blocks m' (brk m) = Freed
          \<and> (\<forall>c. c \<noteq> brk m \<longrightarrow> blocks m' c = blocks m c)
          \<and> dtors m' = dtors m + j \<and> faults m' = faults m
          \<and> owns m' other \<and> cells m' (vector_m other) = cells m (vector_m other)
          \<and> ctors m' = Suc (ctors m + j) \<and> allocs m' = Suc (allocs m)))"
proof (intro conjI impI allI)
  have al: "\<not> alloc_throws env (allocs m) (capacity_m other)"
    using assms(2) by (simp add: Capacity_def)
  assume "\<forall>k<Size other. \<not> throws env (ctors m + k)"
  then have "\<forall>k<size_m other. \<not> throws env (ctors m + k)" by (simp add: Size_def)
  from Vector_copy_ok[OF assms(1) this al]
  show "\<exists>m' v. Vector_copy env other m = Returns v m'
          \<and> Capacity v = Capacity other \<and> Size v = Size other
          \<and> elems m' v = elems m other \<and> owns m' v \<and> owns m' other
          \<and> cells m' (vector_m other) = cells m (vector_m other)
          \<and> faults m' = faults m \<and> dtors m' = dtors m
          \<and> vector_m v = (if Capacity other = 0 \<and> null_on_zero env then None else Some (brk m))
          \<and> brk m' = (if Capacity other = 0 \<and> null_on_zero env then brk m else Suc (brk m))
          \<and> (\<forall>c. c < brk m \<longrightarrow> blocks m' c = blocks m c)
          \<and> ctors m' = ctors m + Size other \<and> allocs m' = Suc (allocs m)"
    unfolding Size_def Capacity_def by blast
next
  fix j
  have al: "\<not> alloc_throws env (allocs m) (capacity_m other)"
    using assms(2) by (simp add: Capacity_def)
  assume j: "j < Size other" and t: "throws env (ctors m + j) \<and> (\<forall>k<j. \<not> throws env (ctors m + k))"
  have j': "j < size_m other" using j by (simp add: Size_def)
  from Vector_copy_fail[OF assms(1) j' conjunct1[OF t] conjunct2[OF t] al]
  show "\<exists>m'. Vector_copy env other m = Throws ConstructionFailure m'
          \<and> blocks m' (brk m) = Freed
          \<and> (\<forall>c. c \<noteq> brk m \<longrightarrow> blocks m' c = blocks m c)
          \<and> dtors m' = dtors m + j \<and> faults m' = faults m
          \<and> owns m' other \<and> cells m' (vector_m other) = cells m (vector_m other)
          \<and> ctors m' = Suc (ctors m + j) \<and> allocs m' = Suc (allocs m)"
    by blast
qed

theorem copy_construction_witness:
  "owns (fst (state_of (push_all no_fail [ByRef (Ext 1), ByRef (Ext 2), ByRef (Ext 3)] (mem0, Vector))))
        (snd (state_of (push_all no_fail [ByRef (Ext 1), ByRef (Ext 2), ByRef (Ext 3)] (mem0, Vector))))
   \<and> Size (snd (state_of (push_all no_fail [ByRef (Ext 1), ByRef (Ext 2), ByRef (Ext 3)]
                   (mem0, Vector)))) = 3
   \<and> Capacity (snd (state_of (push_all no_fail [ByRef (Ext 1), ByRef (Ext 2), ByRef (Ext 3)]
                   (mem0, Vector)))) = 4
   \<and> vector_m (snd (state_of (push_all no_fail [ByRef (Ext 1), ByRef (Ext 2), ByRef (Ext 3)]
                   (mem0, Vector)))) = Some 2
   \<and> \<not> alloc_throws no_fail 3 4
   \<and> \<not> throws no_fail 6 \<and> \<not> throws no_fail 7 \<and> \<not> throws no_fail 8
   \<and> (\<exists>m' v. Vector_copy no_fail
                 (snd (state_of (push_all no_fail [ByRef (Ext 1), ByRef (Ext 2), ByRef (Ext 3)]
                   (mem0, Vector))))
                 (fst (state_of (push_all no_fail [ByRef (Ext 1), ByRef (Ext 2), ByRef (Ext 3)]
                   (mem0, Vector))))
               = Returns v m'
          \<and> Capacity v = 4 \<and> Size v = 3 \<and> elems m' v = [Live 1, Live 2, Live 3]
          \<and> vector_m v = Some 3 \<and> ctors m' = 6 + 3 \<and> allocs m' = Suc 3)
   \<and> \<not> alloc_throws (fails_at 7) 3 4
   \<and> throws (fails_at 7) 7 \<and> \<not> throws (fails_at 7) 6
   \<and> (\<exists>m'. Vector_copy (fails_at 7)
                 (snd (state_of (push_all no_fail [ByRef (Ext 1), ByRef (Ext 2), ByRef (Ext 3)]
                   (mem0, Vector))))
                 (fst (state_of (push_all no_fail [ByRef (Ext 1), ByRef (Ext 2), ByRef (Ext 3)]
                   (mem0, Vector))))
               = Throws ConstructionFailure m'
          \<and> blocks m' 3 = Freed \<and> dtors m' = 3 + 1 \<and> faults m' = [])"
proof -
  define s where
    "s = state_of (push_all no_fail [ByRef (Ext 1), ByRef (Ext 2), ByRef (Ext 3)] (mem0, Vector))"
  have ow: "owns (fst s) (snd s)" unfolding s_def by code_simp
  have sz: "Size (snd s) = 3" and cp: "Capacity (snd s) = 4" unfolding s_def by code_simp+
  have vp: "vector_m (snd s) = Some 2" unfolding s_def by code_simp
  have ct: "ctors (fst s) = 6" and dt: "dtors (fst s) = 3" and bk: "brk (fst s) = 3"
    and fl: "faults (fst s) = []" and ac: "allocs (fst s) = 3" unfolding s_def by code_simp+
  have el: "elems (fst s) (snd s) = [Live 1, Live 2, Live 3]" unfolding s_def by code_simp
  have a1: "\<not> alloc_throws no_fail 3 4" by (simp add: no_fail_def)
  have a2: "\<not> alloc_throws (fails_at 7) 3 4" by (simp add: fails_at_def)
  have a1': "\<not> alloc_throws no_fail (allocs (fst s)) (Capacity (snd s))"
    using a1 by (simp add: ac cp)
  have a2': "\<not> alloc_throws (fails_at 7) (allocs (fst s)) (Capacity (snd s))"
    using a2 by (simp add: ac cp)
  have h1: "\<forall>k<3. \<not> throws no_fail (6 + k)" by (simp add: no_fail_def)
  have h2: "throws (fails_at 7) (6 + 1)" and h3: "\<forall>k<1. \<not> throws (fails_at 7) (6 + k)"
    by (simp_all add: fails_at_def)
  have n1: "\<not> throws no_fail 6" "\<not> throws no_fail 7" "\<not> throws no_fail 8"
    by (simp_all add: no_fail_def)
  have n2: "throws (fails_at 7) 7" "\<not> throws (fails_at 7) 6"
    by (simp_all add: fails_at_def)
  note ok = copy_construction[OF ow a1', THEN conjunct1, unfolded sz ct, THEN mp, OF h1]
  have lt: "(1::nat) < 3" by simp
  note bad = copy_construction[OF ow a2', THEN conjunct2, unfolded sz ct,
      THEN spec, of 1, THEN mp, OF lt, THEN mp, OF conjI[OF h2 h3], unfolded bk dt fl]
  have a: "\<exists>m' v. Vector_copy no_fail (snd s) (fst s) = Returns v m'
          \<and> Capacity v = 4 \<and> Size v = 3 \<and> elems m' v = [Live 1, Live 2, Live 3]
          \<and> vector_m v = Some 3 \<and> ctors m' = 6 + 3 \<and> allocs m' = Suc 3"
    using ok unfolding cp el bk ac by auto
  have b: "\<exists>m'. Vector_copy (fails_at 7) (snd s) (fst s) = Throws ConstructionFailure m'
          \<and> blocks m' 3 = Freed \<and> dtors m' = 3 + 1 \<and> faults m' = []"
    using bad by blast
  have "owns (fst s) (snd s) \<and> Size (snd s) = 3 \<and> Capacity (snd s) = 4
     \<and> vector_m (snd s) = Some 2 \<and> \<not> alloc_throws no_fail 3 4
     \<and> \<not> throws no_fail 6 \<and> \<not> throws no_fail 7 \<and> \<not> throws no_fail 8
     \<and> (\<exists>m' v. Vector_copy no_fail (snd s) (fst s) = Returns v m'
          \<and> Capacity v = 4 \<and> Size v = 3 \<and> elems m' v = [Live 1, Live 2, Live 3]
          \<and> vector_m v = Some 3 \<and> ctors m' = 6 + 3 \<and> allocs m' = Suc 3)
     \<and> \<not> alloc_throws (fails_at 7) 3 4
     \<and> throws (fails_at 7) 7 \<and> \<not> throws (fails_at 7) 6
     \<and> (\<exists>m'. Vector_copy (fails_at 7) (snd s) (fst s) = Throws ConstructionFailure m'
          \<and> blocks m' 3 = Freed \<and> dtors m' = 3 + 1 \<and> faults m' = [])"
    using ow sz cp vp a1 n1 a a2 n2 b by (intro conjI)
  then show ?thesis unfolding s_def .
qed

text \<open>
  C8. Move construction leaves the source with size 0, capacity 0 and null storage and
  gives the new container the storage pointer, size and capacity of the source, hence its
  elements; it reads and writes the three data members only. Move assignment \<^verbatim>\<open>w = move(v)\<close>
  to another container \<open>w\<close>, well formed and with storage of its own, does the same after
  destroying and releasing what \<open>w\<close> held: no element is constructed, no allocation is made,
  no lifetime fault occurs, and the operation has no throwing outcome (both are
  \<^verbatim>\<open>noexcept\<close> and modelled as total functions). Assigning a container to itself is the
  guarded no-op of the spec: nothing is moved.
\<close>

theorem move_transfers_storage:
  "Size (snd (Vector_move v)) = 0 \<and> Capacity (snd (Vector_move v)) = 0
   \<and> vector_m (snd (Vector_move v)) = None
   \<and> vector_m (fst (Vector_move v)) = vector_m v
   \<and> Size (fst (Vector_move v)) = Size v \<and> Capacity (fst (Vector_move v)) = Capacity v
   \<and> elems m (fst (Vector_move v)) = elems m v
   \<and> (this \<noteq> other \<and> owns m (objs this)
        \<and> (vector_m (objs this) = None \<or> vector_m (objs this) \<noteq> vector_m (objs other)) \<longrightarrow>
       (\<exists>m' objs'. MoveAssign this other (m, objs) = (m', objs')
          \<and> Size (objs' other) = 0 \<and> Capacity (objs' other) = 0 \<and> vector_m (objs' other) = None
          \<and> vector_m (objs' this) = vector_m (objs other)
          \<and> Size (objs' this) = Size (objs other)
          \<and> Capacity (objs' this) = Capacity (objs other)
          \<and> elems m' (objs' this) = elems m (objs other)
          \<and> ctors m' = ctors m \<and> brk m' = brk m \<and> faults m' = faults m
          \<and> allocs m' = allocs m))
   \<and> MoveAssign this this (m, objs) = (m, objs)"
proof -
  have 1: "Size (snd (Vector_move v)) = 0 \<and> Capacity (snd (Vector_move v)) = 0
   \<and> vector_m (snd (Vector_move v)) = None
   \<and> vector_m (fst (Vector_move v)) = vector_m v
   \<and> Size (fst (Vector_move v)) = Size v \<and> Capacity (fst (Vector_move v)) = Capacity v
   \<and> elems m (fst (Vector_move v)) = elems m v"
    by (simp add: Vector_move_def Size_def Capacity_def elems_def)
  have 2: "\<exists>m' objs'. MoveAssign this other (m, objs) = (m', objs')
          \<and> Size (objs' other) = 0 \<and> Capacity (objs' other) = 0 \<and> vector_m (objs' other) = None
          \<and> vector_m (objs' this) = vector_m (objs other)
          \<and> Size (objs' this) = Size (objs other)
          \<and> Capacity (objs' this) = Capacity (objs other)
          \<and> elems m' (objs' this) = elems m (objs other)
          \<and> ctors m' = ctors m \<and> brk m' = brk m \<and> faults m' = faults m
          \<and> allocs m' = allocs m"
    if "this \<noteq> other \<and> owns m (objs this)
        \<and> (vector_m (objs this) = None \<or> vector_m (objs this) \<noteq> vector_m (objs other))"
    using MoveAssign_distinct[of this other m objs] that
    unfolding Size_def Capacity_def by blast
  have 3: "MoveAssign this this (m, objs) = (m, objs)" by (simp add: MoveAssign_def)
  show ?thesis using 1 2 3 by blast
qed

theorem move_transfers_storage_witness:
  "(1::nat) \<noteq> 0
   \<and> owns (fst (built (Vector_value no_fail 2 (Ext 9) (fst (built (Vector_value no_fail 3 (Ext 7) mem0))))))
        (store2 (snd (built (Vector_value no_fail 3 (Ext 7) mem0)))
                (snd (built (Vector_value no_fail 2 (Ext 9)
                   (fst (built (Vector_value no_fail 3 (Ext 7) mem0)))))) 1)
   \<and> vector_m (store2 (snd (built (Vector_value no_fail 3 (Ext 7) mem0)))
                (snd (built (Vector_value no_fail 2 (Ext 9)
                   (fst (built (Vector_value no_fail 3 (Ext 7) mem0)))))) 1)
       \<noteq> vector_m (store2 (snd (built (Vector_value no_fail 3 (Ext 7) mem0)))
                (snd (built (Vector_value no_fail 2 (Ext 9)
                   (fst (built (Vector_value no_fail 3 (Ext 7) mem0)))))) 0)
   \<and> (\<exists>m' objs'.
         MoveAssign 1 0
           (fst (built (Vector_value no_fail 2 (Ext 9)
                   (fst (built (Vector_value no_fail 3 (Ext 7) mem0))))),
            store2 (snd (built (Vector_value no_fail 3 (Ext 7) mem0)))
                (snd (built (Vector_value no_fail 2 (Ext 9)
                   (fst (built (Vector_value no_fail 3 (Ext 7) mem0)))))))
           = (m', objs')
         \<and> Size (objs' 0) = 0 \<and> Capacity (objs' 0) = 0 \<and> vector_m (objs' 0) = None
         \<and> Size (objs' 1) = 3 \<and> Capacity (objs' 1) = 3
         \<and> elems m' (objs' 1) = [Live 7, Live 7, Live 7])"
proof -
  define m where "m = fst (built (Vector_value no_fail 2 (Ext 9)
                   (fst (built (Vector_value no_fail 3 (Ext 7) mem0)))))"
  define objs where "objs = store2 (snd (built (Vector_value no_fail 3 (Ext 7) mem0)))
                (snd (built (Vector_value no_fail 2 (Ext 9)
                   (fst (built (Vector_value no_fail 3 (Ext 7) mem0))))))"
  have h1: "(1::nat) \<noteq> 0" by simp
  have h2: "owns m (objs 1)" unfolding m_def objs_def by code_simp
  have h3: "vector_m (objs 1) \<noteq> vector_m (objs 0)" unfolding objs_def by code_simp
  have sz: "Size (objs 0) = 3" and cp: "Capacity (objs 0) = 3"
    and el: "elems m (objs 0) = [Live 7, Live 7, Live 7]"
    unfolding m_def objs_def by code_simp+
  note t = move_transfers_storage[where this=1 and other=0 and m=m and objs=objs,
      THEN conjunct2, THEN conjunct2, THEN conjunct2, THEN conjunct2, THEN conjunct2,
      THEN conjunct2, THEN conjunct2, THEN conjunct1, THEN mp,
      OF conjI[OF h1 conjI[OF h2 disjI2[OF h3]]], unfolded sz cp el]
  have c: "\<exists>m' objs'. MoveAssign 1 0 (m, objs) = (m', objs')
         \<and> Size (objs' 0) = 0 \<and> Capacity (objs' 0) = 0 \<and> vector_m (objs' 0) = None
         \<and> Size (objs' 1) = 3 \<and> Capacity (objs' 1) = 3
         \<and> elems m' (objs' 1) = [Live 7, Live 7, Live 7]"
    using t by blast
  have "(1::nat) \<noteq> 0 \<and> owns m (objs 1) \<and> vector_m (objs 1) \<noteq> vector_m (objs 0)
     \<and> (\<exists>m' objs'. MoveAssign 1 0 (m, objs) = (m', objs')
         \<and> Size (objs' 0) = 0 \<and> Capacity (objs' 0) = 0 \<and> vector_m (objs' 0) = None
         \<and> Size (objs' 1) = 3 \<and> Capacity (objs' 1) = 3
         \<and> elems m' (objs' 1) = [Live 7, Live 7, Live 7])"
    using h1 h2 h3 c by (intro conjI)
  then show ?thesis unfolding m_def objs_def .
qed

end
